theory Spec2Isabelle
  imports Complex_Main "HOL-Library.Sublist"
begin

section \<open>Text\<close>

text \<open>
  A Python \<open>str\<close> is modelled as a \<open>string\<close>, one \<open>char\<close> per character: the \<open>char\<close> is the
  code point of the character, so the strings of the model are those of code points below
  256. The character classes below are those of Python on all of these code points.
  \<open>a in b\<close> on strings is \<^const>\<open>sublist\<close> \<open>a b\<close>, \<open>b.startswith(a)\<close> is \<^const>\<open>prefix\<close> \<open>a b\<close>.
\<close>

text \<open>\<open>str.lower\<close>: the letters \<open>A\<close> to \<open>Z\<close>, and the capital letters \<open>0xC0\<close> to \<open>0xDE\<close> without
  the multiplication sign \<open>0xD7\<close>, move up by \<open>0x20\<close>; every other character stays.\<close>

definition upper_chars :: "char list" where
  "upper_chars = ''ABCDEFGHIJKLMNOPQRSTUVWXYZ'' @
     [CHR 0xC0, CHR 0xC1, CHR 0xC2, CHR 0xC3, CHR 0xC4, CHR 0xC5, CHR 0xC6, CHR 0xC7,
      CHR 0xC8, CHR 0xC9, CHR 0xCA, CHR 0xCB, CHR 0xCC, CHR 0xCD, CHR 0xCE, CHR 0xCF,
      CHR 0xD0, CHR 0xD1, CHR 0xD2, CHR 0xD3, CHR 0xD4, CHR 0xD5, CHR 0xD6,
      CHR 0xD8, CHR 0xD9, CHR 0xDA, CHR 0xDB, CHR 0xDC, CHR 0xDD, CHR 0xDE]"

definition lower_chars :: "char list" where
  "lower_chars = ''abcdefghijklmnopqrstuvwxyz'' @
     [CHR 0xE0, CHR 0xE1, CHR 0xE2, CHR 0xE3, CHR 0xE4, CHR 0xE5, CHR 0xE6, CHR 0xE7,
      CHR 0xE8, CHR 0xE9, CHR 0xEA, CHR 0xEB, CHR 0xEC, CHR 0xED, CHR 0xEE, CHR 0xEF,
      CHR 0xF0, CHR 0xF1, CHR 0xF2, CHR 0xF3, CHR 0xF4, CHR 0xF5, CHR 0xF6,
      CHR 0xF8, CHR 0xF9, CHR 0xFA, CHR 0xFB, CHR 0xFC, CHR 0xFD, CHR 0xFE]"

definition lower_char :: "char \<Rightarrow> char" where
  "lower_char c = (case map_of (zip upper_chars lower_chars) c of None \<Rightarrow> c | Some d \<Rightarrow> d)"

definition lower :: "string \<Rightarrow> string" where
  "lower s = map lower_char s"

definition newline :: char where
  "newline = CHR 0x0A"

text \<open>\<open>str.isspace\<close>, which \<open>strip\<close> and \<open>split\<close> use, and the regular expression class \<open>\s\<close>:
  tab, line feed, vertical tab, form feed, carriage return, the four separators \<open>0x1C\<close> to
  \<open>0x1F\<close>, the space, the next-line control \<open>0x85\<close> and the no-break space \<open>0xA0\<close>.\<close>

definition is_space :: "char \<Rightarrow> bool" where
  "is_space c = (c \<in> set [CHR 0x09, CHR 0x0A, CHR 0x0B, CHR 0x0C, CHR 0x0D,
                            CHR 0x1C, CHR 0x1D, CHR 0x1E, CHR 0x1F, CHR '' '',
                            CHR 0x85, CHR 0xA0])"

text \<open>The decimal digits: the regular expression class \<open>\d\<close>, and the digits \<open>int\<close> reads.\<close>

definition is_decimal :: "char \<Rightarrow> bool" where
  "is_decimal c = (c \<in> set ''0123456789'')"

text \<open>The characters of \<open>str.isdigit\<close>: the decimal digits and the superscripts two, three
  and one, which \<open>int\<close> does not read.\<close>

definition is_digit :: "char \<Rightarrow> bool" where
  "is_digit c = (is_decimal c \<or> c \<in> set [CHR 0xB2, CHR 0xB3, CHR 0xB9])"

text \<open>\<open>s.strip()\<close>\<close>

definition strip :: "string \<Rightarrow> string" where
  "strip s = rev (dropWhile is_space (rev (dropWhile is_space s)))"

text \<open>\<open>s.isdigit()\<close>: at least one character, and characters of that class only.\<close>

definition isdigit :: "string \<Rightarrow> bool" where
  "isdigit s = (s \<noteq> [] \<and> list_all is_digit s)"

text \<open>\<open>s.split(sep)\<close> for a single separator character: always at least one piece.\<close>

fun split_on :: "char \<Rightarrow> string \<Rightarrow> string list" where
  "split_on sep [] = [[]]"
| "split_on sep (c # cs) =
     (if c = sep then [] # split_on sep cs
      else (case split_on sep cs of p # ps \<Rightarrow> (c # p) # ps | [] \<Rightarrow> [[c]]))"

text \<open>\<open>s.split()\<close>: the maximal runs of non-whitespace characters.\<close>

fun split_ws_acc :: "string \<Rightarrow> string \<Rightarrow> string list" where
  "split_ws_acc cur [] = (if cur = [] then [] else [cur])"
| "split_ws_acc cur (c # cs) =
     (if is_space c then (if cur = [] then split_ws_acc [] cs else cur # split_ws_acc [] cs)
      else split_ws_acc (cur @ [c]) cs)"

definition split_ws :: "string \<Rightarrow> string list" where
  "split_ws s = split_ws_acc [] s"

text \<open>\<open>sep.join(xs)\<close>\<close>

fun join :: "string \<Rightarrow> string list \<Rightarrow> string" where
  "join sep [] = []"
| "join sep [x] = x"
| "join sep (x # y # ys) = x @ sep @ join sep (y # ys)"

section \<open>The workspace database\<close>

text \<open>
  The JSON the scripts exchange with the workspace database, reduced to the fields they
  read and write. \<open>content\<close> is \<open>None\<close> where the \<open>text\<close> object or its \<open>content\<close> is
  missing; \<open>b_heading_2\<close> and \<open>b_paragraph\<close> are \<open>None\<close> where the block has no such key.
\<close>

datatype rich_text = RichText (content: "string option")

record block =
  btype :: string
  b_heading_2 :: "rich_text list option"
  b_paragraph :: "rich_text list option"

record page =
  page_id :: string
  episode_no :: int
  children :: "block list"

datatype request =
    Query int
  | GetChildren string nat
  | PatchChildren string "block list"

datatype response =
    QueryResults "string list"
  | ChildrenResults "block list"
  | Ack

datatype fault = HTTPError | URLError

text \<open>
  The service and the network are the environment of the scripts. A world holds the pages
  of the database, the fate of each coming request (\<open>Some f\<close>: the transport fails with
  \<open>f\<close>; \<open>None\<close>, or no entry left: the request is served) and the requests sent so far.
  The service answers a query with the ids of the pages of that episode number, a read of
  child blocks with the first \<open>page_size\<close> blocks, and stores the blocks of an append
  behind the page's blocks; a request on an unknown page is an HTTP error.
\<close>

record world =
  pages :: "page list"
  faults :: "fault option list"
  sent :: "request list"

fun append_children :: "string \<Rightarrow> block list \<Rightarrow> page list \<Rightarrow> page list" where
  "append_children pid bs [] = []"
| "append_children pid bs (p # ps) =
     (if page_id p = pid then p\<lparr>children := children p @ bs\<rparr> # ps
      else p # append_children pid bs ps)"

fun serve :: "request \<Rightarrow> page list \<Rightarrow> fault + response \<times> page list" where
  "serve (Query n) ps = Inr (QueryResults (map page_id (filter (\<lambda>p. episode_no p = n) ps)), ps)"
| "serve (GetChildren pid k) ps =
     (case find (\<lambda>p. page_id p = pid) ps of
        None \<Rightarrow> Inl HTTPError
      | Some p \<Rightarrow> Inr (ChildrenResults (take k (children p)), ps))"
| "serve (PatchChildren pid bs) ps =
     (case find (\<lambda>p. page_id p = pid) ps of
        None \<Rightarrow> Inl HTTPError
      | Some p \<Rightarrow> Inr (Ack, append_children pid bs ps))"

definition urlopen :: "request \<Rightarrow> world \<Rightarrow> (fault + response) \<times> world" where
  "urlopen r w =
     (let w1 = w\<lparr>faults := tl (faults w), sent := sent w @ [r]\<rparr> in
      case faults w of
        Some f # _ \<Rightarrow> (Inl f, w1)
      | _ \<Rightarrow> (case serve r (pages w) of
                Inl f \<Rightarrow> (Inl f, w1)
              | Inr (resp, ps) \<Rightarrow> (Inr resp, w1\<lparr>pages := ps\<rparr>)))"

subsection \<open>sync_youtube_transcripts_to_notion.py\<close>

text \<open>\<open>notion_request\<close> of this script catches \<open>HTTPError\<close> and every other exception and
  returns \<open>None\<close> for both.\<close>

definition notion_request_yt :: "request \<Rightarrow> world \<Rightarrow> response option \<times> world" where
  "notion_request_yt r w =
     (case urlopen r w of
        (Inl HTTPError, w') \<Rightarrow> (None, w')
      | (Inl URLError, w') \<Rightarrow> (None, w')
      | (Inr resp, w') \<Rightarrow> (Some resp, w'))"

text \<open>\<open>data.get('results')\<close>\<close>

fun results_blocks :: "response \<Rightarrow> block list" where
  "results_blocks (ChildrenResults bs) = bs"
| "results_blocks _ = []"

fun results_ids :: "response \<Rightarrow> string list" where
  "results_ids (QueryResults ids) = ids"
| "results_ids _ = []"

text \<open>The test of one block in \<open>check_page_has_transcript\<close>.\<close>

definition is_transcript_heading :: "block \<Rightarrow> bool" where
  "is_transcript_heading b =
     (btype b = ''heading_2'' \<and>
      (let text = (case b_heading_2 b of None \<Rightarrow> [] | Some rts \<Rightarrow> rts) in
       case text of
         [] \<Rightarrow> False
       | t # _ \<Rightarrow> sublist ''Transcript'' (case content t of None \<Rightarrow> [] | Some c \<Rightarrow> c)))"

text \<open>The loop over the blocks: \<open>True\<close> at the first block that passes the test.\<close>

fun scan_blocks :: "block list \<Rightarrow> bool" where
  "scan_blocks [] = False"
| "scan_blocks (b # bs) = (if is_transcript_heading b then True else scan_blocks bs)"

definition check_page_has_transcript :: "string \<Rightarrow> world \<Rightarrow> bool \<times> world" where
  "check_page_has_transcript pid w =
     (case notion_request_yt (GetChildren pid 20) w of
        (None, w') \<Rightarrow> (False, w')
      | (Some data, w') \<Rightarrow> (scan_blocks (results_blocks data), w'))"

text \<open>\<open>int(s)\<close> on a string: surrounding whitespace (here without the four separators
  \<open>0x1C\<close> to \<open>0x1F\<close>), an optional sign, then decimal digits, where single underscores may
  stand between digits. \<open>None\<close> is \<open>ValueError\<close>.\<close>

definition is_int_space :: "char \<Rightarrow> bool" where
  "is_int_space c = (c \<in> set [CHR 0x09, CHR 0x0A, CHR 0x0B, CHR 0x0C, CHR 0x0D, CHR '' '',
                                CHR 0x85, CHR 0xA0])"

definition digit_value :: "char \<Rightarrow> nat" where
  "digit_value c = of_char c - of_char CHR ''0''"

fun valid_digits :: "bool \<Rightarrow> string \<Rightarrow> bool" where
  "valid_digits after_digit [] = after_digit"
| "valid_digits after_digit (c # cs) =
     (if is_decimal c then valid_digits True cs
      else if c = CHR ''_'' then after_digit \<and> cs \<noteq> [] \<and> is_decimal (hd cs) \<and> valid_digits False cs
      else False)"

fun digits_value :: "nat \<Rightarrow> string \<Rightarrow> nat" where
  "digits_value acc [] = acc"
| "digits_value acc (c # cs) =
     (if is_decimal c then digits_value (10 * acc + digit_value c) cs else digits_value acc cs)"

definition py_int :: "string \<Rightarrow> int option" where
  "py_int s =
     (let t = rev (dropWhile is_int_space (rev (dropWhile is_int_space s)));
          neg = (t \<noteq> [] \<and> hd t = CHR ''-'');
          body = (if t \<noteq> [] \<and> (hd t = CHR ''-'' \<or> hd t = CHR ''+'') then tl t else t)
      in if valid_digits False body
         then Some (if neg then - int (digits_value 0 body) else int (digits_value 0 body))
         else None)"

text \<open>\<open>str(n)\<close> for a natural number.\<close>

fun str_nat :: "nat \<Rightarrow> string" where
  "str_nat n = (if n < 10 then [''0123456789'' ! n]
                else str_nat (n div 10) @ [''0123456789'' ! (n mod 10)])"

text \<open>The exceptions that can leave a function of the two scripts.\<close>

datatype error = ValueError | NetworkError fault

text \<open>\<open>find_episode_page\<close>: the id of the first page the query returns. \<open>int(episode_num)\<close>
  is evaluated before the request is made and may raise \<open>ValueError\<close>.\<close>

definition find_episode_page_yt :: "string \<Rightarrow> world \<Rightarrow> (error + string option) \<times> world" where
  "find_episode_page_yt episode_num w =
     (case py_int episode_num of
        None \<Rightarrow> (Inl ValueError, w)
      | Some n \<Rightarrow>
          (case notion_request_yt (Query n) w of
             (None, w') \<Rightarrow> (Inr None, w')
           | (Some data, w') \<Rightarrow>
               (case results_ids data of
                  [] \<Rightarrow> (Inr None, w')
                | pid # _ \<Rightarrow> (Inr (Some pid), w'))))"

text \<open>The chunking loop of \<open>add_transcript_to_page\<close>, the same in both scripts: the state is
  \<open>chunks\<close>, \<open>current_chunk\<close> and \<open>current_len\<close>.\<close>

fun chunk_loop :: "string list \<Rightarrow> string list \<Rightarrow> string list \<Rightarrow> nat \<Rightarrow> string list \<times> string list" where
  "chunk_loop [] chunks current_chunk current_len = (chunks, current_chunk)"
| "chunk_loop (word # ws) chunks current_chunk current_len =
     (if current_len + length word + 1 > 1900
      then chunk_loop ws (chunks @ [join '' '' current_chunk]) [word] (length word)
      else chunk_loop ws chunks (current_chunk @ [word]) (current_len + length word + 1))"

definition split_chunks :: "string \<Rightarrow> string list" where
  "split_chunks transcript_text =
     (case chunk_loop (split_ws transcript_text) [] [] 0 of
        (chunks, current_chunk) \<Rightarrow>
          if current_chunk \<noteq> [] then chunks @ [join '' '' current_chunk] else chunks)"

text \<open>The heading marker: a memo emoji and \<open>Transcript\<close>. The emoji, a code point above 255,
  stands here as the four bytes of its UTF-8 form; no function reads these characters.\<close>

definition transcript_heading :: string where
  "transcript_heading = [CHR 0xF0, CHR 0x9F, CHR 0x93, CHR 0x9D] @ '' Transcript''"

definition divider_block :: block where
  "divider_block = \<lparr>btype = ''divider'', b_heading_2 = None, b_paragraph = None\<rparr>"

definition heading_block :: block where
  "heading_block = \<lparr>btype = ''heading_2'',
       b_heading_2 = Some [RichText (Some transcript_heading)], b_paragraph = None\<rparr>"

definition paragraph_block :: "string \<Rightarrow> block" where
  "paragraph_block chunk = \<lparr>btype = ''paragraph'', b_heading_2 = None,
       b_paragraph = Some [RichText (Some chunk)]\<rparr>"

definition truncation_marker :: "nat \<Rightarrow> string" where
  "truncation_marker n = ''[... transcript truncated, '' @ str_nat n @ '' more paragraphs ...]''"

text \<open>The blocks \<open>add_transcript_to_page\<close> of this script sends: a divider, the heading, the
  first 97 chunks and, when there are more, the truncation marker.\<close>

definition transcript_blocks_yt :: "string \<Rightarrow> block list" where
  "transcript_blocks_yt transcript_text =
     (let chunks = split_chunks transcript_text in
      [divider_block, heading_block] @ map paragraph_block (take 97 chunks) @
      (if length chunks > 97 then [paragraph_block (truncation_marker (length chunks - 97))] else []))"

definition add_transcript_to_page_yt :: "string \<Rightarrow> string \<Rightarrow> world \<Rightarrow> bool \<times> world" where
  "add_transcript_to_page_yt pid transcript_text w =
     (case notion_request_yt (PatchChildren pid (transcript_blocks_yt transcript_text)) w of
        (result, w') \<Rightarrow> (result \<noteq> None, w'))"

subsection \<open>sync_transcripts_to_notion.py\<close>

text \<open>\<open>notion_request\<close> of this script catches \<open>HTTPError\<close> only: any other exception of the
  transport leaves the function. \<open>Inl f\<close> is the exception that escapes.\<close>

definition notion_request_map :: "request \<Rightarrow> world \<Rightarrow> (fault + response option) \<times> world" where
  "notion_request_map r w =
     (case urlopen r w of
        (Inl HTTPError, w') \<Rightarrow> (Inr None, w')
      | (Inl URLError, w') \<Rightarrow> (Inl URLError, w')
      | (Inr resp, w') \<Rightarrow> (Inr (Some resp), w'))"

definition find_episode_page_map :: "string \<Rightarrow> world \<Rightarrow> (error + string option) \<times> world" where
  "find_episode_page_map episode_num w =
     (case py_int episode_num of
        None \<Rightarrow> (Inl ValueError, w)
      | Some n \<Rightarrow>
          (case notion_request_map (Query n) w of
             (Inl f, w') \<Rightarrow> (Inl (NetworkError f), w')
           | (Inr None, w') \<Rightarrow> (Inr None, w')
           | (Inr (Some data), w') \<Rightarrow>
               (case results_ids data of
                  [] \<Rightarrow> (Inr None, w')
                | pid # _ \<Rightarrow> (Inr (Some pid), w'))))"

text \<open>The blocks \<open>add_transcript_to_page\<close> of this script sends: the heading and the first 100
  chunks.\<close>

definition transcript_blocks_map :: "string \<Rightarrow> block list" where
  "transcript_blocks_map transcript_text =
     (let chunks = split_chunks transcript_text in
      [heading_block] @ map paragraph_block (take 100 chunks))"

definition add_transcript_to_page_map :: "string \<Rightarrow> string \<Rightarrow> world \<Rightarrow> (error + bool) \<times> world" where
  "add_transcript_to_page_map pid transcript_text w =
     (case notion_request_map (PatchChildren pid (transcript_blocks_map transcript_text)) w of
        (Inl f, w') \<Rightarrow> (Inl (NetworkError f), w')
      | (Inr result, w') \<Rightarrow> (Inr (result \<noteq> None), w'))"

section \<open>download_transcripts.py\<close>

subsection \<open>normalize_name\<close>

text \<open>\<open>$\<close> of a regular expression: the end of the string, or just before a line feed that
  ends the string.\<close>

definition at_end :: "string \<Rightarrow> bool" where
  "at_end r = (r = [] \<or> r = [newline])"

text \<open>\<open>\(\d+\)\<close> at the start of a string: the length of the match.\<close>

definition paren_digits :: "string \<Rightarrow> nat option" where
  "paren_digits s =
     (case s of
        [] \<Rightarrow> None
      | c # rest \<Rightarrow>
          if c = CHR ''(''
          then (let ds = takeWhile is_decimal rest; after = dropWhile is_decimal rest in
                if ds \<noteq> [] \<and> after \<noteq> [] \<and> hd after = CHR '')''
                then Some (length ds + 2) else None)
          else None)"

text \<open>The alternatives of the first pattern of \<open>normalize_name\<close>, tried in its order at the
  start of a string: the length of the match.\<close>

definition noise_match :: "string \<Rightarrow> nat option" where
  "noise_match s =
     (if prefix ''.srt'' s \<and> at_end (drop 4 s) then Some 4
      else if prefix ''.en_us'' s \<and> at_end (drop 6 s) then Some 6
      else if prefix ''_final'' s \<and> at_end (drop 6 s) then Some 6
      else if prefix ''(new)'' s then Some 5
      else if paren_digits s \<noteq> None then paren_digits s
      else if prefix ''_subtitles'' s \<and> at_end (drop 10 s) then Some 10
      else if prefix ''.mp4'' s \<and> at_end (drop 4 s) then Some 4
      else if prefix ''.mov'' s \<and> at_end (drop 4 s) then Some 4
      else None)"

text \<open>\<open>re.sub(pattern, '', name)\<close>: from left to right, a match is left out and the scan goes
  on behind it. The first argument counts the characters of the current match still to
  leave out.\<close>

fun strip_noise :: "nat \<Rightarrow> string \<Rightarrow> string" where
  "strip_noise k [] = []"
| "strip_noise (Suc k) (c # cs) = strip_noise k cs"
| "strip_noise 0 (c # cs) =
     (case noise_match (c # cs) of
        Some n \<Rightarrow> strip_noise (n - 1) cs
      | None \<Rightarrow> c # strip_noise 0 cs)"

text \<open>\<open>re.sub(r'\s+', ' ', name)\<close>: the flag says that the previous character was
  whitespace.\<close>

fun collapse_ws :: "bool \<Rightarrow> string \<Rightarrow> string" where
  "collapse_ws in_run [] = []"
| "collapse_ws in_run (c # cs) =
     (if is_space c then (if in_run then collapse_ws True cs else CHR '' '' # collapse_ws True cs)
      else c # collapse_ws False cs)"

definition normalize_name :: "string \<Rightarrow> string" where
  "normalize_name name =
     (let name1 = lower name;
          name2 = strip_noise 0 name1;
          name3 = map (\<lambda>c. if c = CHR ''_'' \<or> c = CHR ''-'' then CHR '' '' else c) name2
      in strip (collapse_ws False name3))"

subsection \<open>match_guest\<close>

text \<open>An episode of the catalog; \<open>guest\<close> is \<open>None\<close> where the entry has no such key.
  \<open>SequenceMatcher(None, a, b).ratio()\<close> is the standard library's: it is the parameter
  \<open>ratio\<close>, and a score is a real number.\<close>

record episode =
  episode_key :: string
  guest :: "string option"

text \<open>\<open>ep.get('guest', '').lower()\<close>\<close>

definition guest_of :: "episode \<Rightarrow> string" where
  "guest_of ep = lower (case guest ep of None \<Rightarrow> [] | Some name \<Rightarrow> name)"

fun match_loop :: "(string \<Rightarrow> string \<Rightarrow> real) \<Rightarrow> string \<Rightarrow> episode list \<Rightarrow>
    episode option \<Rightarrow> real \<Rightarrow> episode option \<times> real" where
  "match_loop ratio norm_srt [] best_match best_score = (best_match, best_score)"
| "match_loop ratio norm_srt (ep # eps) best_match best_score =
     (let g = guest_of ep in
      if g = [] then match_loop ratio norm_srt eps best_match best_score
      else if sublist g norm_srt \<or> sublist norm_srt g then (Some ep, 1)
      else (let score = ratio norm_srt g in
            if score > best_score \<and> score > 0.6
            then match_loop ratio norm_srt eps (Some ep) score
            else match_loop ratio norm_srt eps best_match best_score))"

definition match_guest :: "(string \<Rightarrow> string \<Rightarrow> real) \<Rightarrow> string \<Rightarrow> episode list \<Rightarrow>
    episode option \<times> real" where
  "match_guest ratio srt_name episodes = match_loop ratio (normalize_name srt_name) episodes None 0"

text \<open>The episodes the exact test of the loop accepts for a normalized name: the guest name
  is not empty, and one string contains the other.\<close>

definition contained :: "string \<Rightarrow> episode \<Rightarrow> bool" where
  "contained norm_srt ep =
     (guest_of ep \<noteq> [] \<and> (sublist (guest_of ep) norm_srt \<or> sublist norm_srt (guest_of ep)))"

subsection \<open>srt_to_text\<close>

text \<open>\<open>re.match(r'^\d+$', line)\<close>\<close>

definition match_digits :: "string \<Rightarrow> bool" where
  "match_digits line =
     (let body = (if line \<noteq> [] \<and> last line = newline then butlast line else line)
      in body \<noteq> [] \<and> list_all is_decimal body)"

text \<open>\<open>re.match(r'^\d{2}:\d{2}:\d{2}', line)\<close>\<close>

definition timestamp_shape :: "string \<Rightarrow> bool" where
  "timestamp_shape p =
     (length p = 8 \<and> is_decimal (p ! 0) \<and> is_decimal (p ! 1) \<and> p ! 2 = CHR '':'' \<and>
      is_decimal (p ! 3) \<and> is_decimal (p ! 4) \<and> p ! 5 = CHR '':'' \<and>
      is_decimal (p ! 6) \<and> is_decimal (p ! 7))"

definition match_timestamp :: "string \<Rightarrow> bool" where
  "match_timestamp line = timestamp_shape (take 8 line)"

text \<open>The loop of \<open>srt_to_text\<close> over the lines: the lines it appends to \<open>text_lines\<close>.\<close>

fun srt_lines :: "string list \<Rightarrow> string list" where
  "srt_lines [] = []"
| "srt_lines (l # ls) =
     (let line = strip l in
      if match_digits line then srt_lines ls
      else if match_timestamp line then srt_lines ls
      else if sublist ''-->'' line then srt_lines ls
      else if line \<noteq> [] then line # srt_lines ls
      else srt_lines ls)"

definition srt_to_text :: "string \<Rightarrow> string" where
  "srt_to_text srt_content = join '' '' (srt_lines (split_on newline srt_content))"

section \<open>parse_vtt_to_text of sync_youtube_transcripts_to_notion.py\<close>

text \<open>\<open>re.sub(r'<[^>]+>', '', line)\<close>: a tag starts at a \<open><\<close> that is followed by a
  character other than \<open>>\<close> and, later, by a \<open>>\<close>; it ends at the first \<open>>\<close>. The flag says
  that the scan is inside a tag.\<close>

definition tag_ahead :: "string \<Rightarrow> bool" where
  "tag_ahead cs = (case cs of [] \<Rightarrow> False | d # ds \<Rightarrow> d \<noteq> CHR ''>'' \<and> CHR ''>'' \<in> set ds)"

fun remove_tags :: "bool \<Rightarrow> string \<Rightarrow> string" where
  "remove_tags in_tag [] = []"
| "remove_tags True (c # cs) = (if c = CHR ''>'' then remove_tags False cs else remove_tags True cs)"
| "remove_tags False (c # cs) =
     (if c = CHR ''<'' \<and> tag_ahead cs then remove_tags True cs else c # remove_tags False cs)"

fun vtt_lines :: "string list \<Rightarrow> string list" where
  "vtt_lines [] = []"
| "vtt_lines (l # ls) =
     (let line = strip l in
      if line = [] \<or> sublist ''-->'' line \<or> prefix ''WEBVTT'' line \<or> prefix ''Kind:'' line
         \<or> prefix ''Language:'' line then vtt_lines ls
      else if isdigit line then vtt_lines ls
      else (let line' = remove_tags False line in
            if line' \<noteq> [] then line' # vtt_lines ls else vtt_lines ls))"

text \<open>The second loop: a line equal to the one before it is left out. \<open>prev\<close> is \<open>None\<close> at
  the start.\<close>

fun dedupe :: "string option \<Rightarrow> string list \<Rightarrow> string list" where
  "dedupe prev [] = []"
| "dedupe prev (line # ls) =
     (if Some line \<noteq> prev then line # dedupe (Some line) ls else dedupe prev ls)"

definition parse_vtt_to_text :: "string \<Rightarrow> string" where
  "parse_vtt_to_text vtt_content =
     join '' '' (dedupe None (vtt_lines (split_on newline vtt_content)))"

section \<open>Files\<close>

text \<open>
  The files the scripts keep. A file is absent (\<open>None\<close>), empty, or holds a complete
  document. \<open>open(path, 'w')\<close> creates the file or cuts it to length zero; the text is
  written into the open file afterwards. \<open>Path.write_text(data)\<close> and
  \<open>with open(path, 'w') as f: json.dump(data, f)\<close> are these two steps on the same path.
  \<open>Rename\<close> is \<open>os.replace\<close>; no script uses it.
\<close>

datatype 'd file_content = Empty | Holds 'd

datatype 'd file_op = OpenW string | Write string 'd | Rename string string

fun apply_op :: "'d file_op \<Rightarrow> (string \<Rightarrow> 'd file_content option) \<Rightarrow> (string \<Rightarrow> 'd file_content option)" where
  "apply_op (OpenW path) fs = fs(path \<mapsto> Empty)"
| "apply_op (Write path d) fs = fs(path \<mapsto> Holds d)"
| "apply_op (Rename src dst) fs = (fs(dst := fs src))(src := None)"

text \<open>The file system after the operations, one after the other. A process that dies
  after \<open>k\<close> of them leaves \<open>run_ops (take k ops) fs\<close>.\<close>

fun run_ops :: "'d file_op list \<Rightarrow> (string \<Rightarrow> 'd file_content option) \<Rightarrow> (string \<Rightarrow> 'd file_content option)" where
  "run_ops [] fs = fs"
| "run_ops (op # ops) fs = run_ops ops (apply_op op fs)"


definition write_text :: "string \<Rightarrow> 'd \<Rightarrow> 'd file_op list" where
  "write_text path d = [OpenW path, Write path d]"

text \<open>Python dictionaries with string keys, in insertion order: \<open>d[k] = v\<close>, \<open>d.pop(k, None)\<close>
  and \<open>d.get(k)\<close>.\<close>

fun dict_set :: "string \<Rightarrow> 'v \<Rightarrow> (string \<times> 'v) list \<Rightarrow> (string \<times> 'v) list" where
  "dict_set k v [] = [(k, v)]"
| "dict_set k v ((k', v') # d) = (if k' = k then (k, v) # d else (k', v') # dict_set k v d)"

fun dict_pop :: "string \<Rightarrow> (string \<times> 'v) list \<Rightarrow> (string \<times> 'v) list" where
  "dict_pop k [] = []"
| "dict_pop k ((k', v') # d) = (if k' = k then d else (k', v') # dict_pop k d)"

fun dict_get :: "(string \<times> 'v) list \<Rightarrow> string \<Rightarrow> 'v option" where
  "dict_get [] k = None"
| "dict_get ((k', v') # d) k = (if k' = k then Some v' else dict_get d k)"

section \<open>assemblyai_transcribe.py\<close>

text \<open>The progress ledger: the completed episodes, the failed ones with their error
  message, and the pending transcript id of an episode. All three keys are present, as in
  the ledger \<open>load_progress\<close> starts from and in every ledger the script saves.\<close>

record progress =
  completed :: "string list"
  failed :: "(string \<times> string) list"
  pending :: "(string \<times> string) list"

text \<open>The result of a transcription: the utterances as pairs of speaker and text, and the
  flat text.\<close>

record transcript =
  utterances :: "(string \<times> string) list"
  flat_text :: string

text \<open>What the files of this script hold.\<close>

datatype document = Ledger progress | Markdown string | RawJson transcript

type_synonym files = "string \<Rightarrow> document file_content option"

definition PROGRESS_FILE :: string where
  "PROGRESS_FILE = ''scripts/assemblyai_progress.json''"

definition output_file :: "string \<Rightarrow> string \<Rightarrow> string" where
  "output_file episode_num youtube_id =
     ''transcripts/assemblyai/ep'' @ episode_num @ ''_'' @ youtube_id @ ''.md''"

definition raw_file :: "string \<Rightarrow> string \<Rightarrow> string" where
  "raw_file episode_num youtube_id =
     ''transcripts/assemblyai/ep'' @ episode_num @ ''_'' @ youtube_id @ ''.json''"

text \<open>\<open>load_progress\<close>: \<open>None\<close> is the exception of \<open>json.loads\<close> on a file that holds no
  complete ledger.\<close>

definition load_progress :: "files \<Rightarrow> progress option" where
  "load_progress fs =
     (case fs PROGRESS_FILE of
        None \<Rightarrow> Some \<lparr>completed = [], failed = [], pending = []\<rparr>
      | Some (Holds (Ledger p)) \<Rightarrow> Some p
      | Some _ \<Rightarrow> None)"

definition save_progress :: "progress \<Rightarrow> document file_op list" where
  "save_progress p = write_text PROGRESS_FILE (Ledger p)"

text \<open>
  What the script does to the outside, in order: the calls of yt-dlp and of the
  transcription service, and the operations on files. The answers are the environment's:
  the audio URL or the error text of yt-dlp, the transcript id or the error of the
  submission, and the answers to the polls that are made before \<open>max_wait\<close> seconds are
  over (the clock is the environment's too: when the answers are used up, the time is
  over). File operations are taken to succeed.
\<close>

datatype action =
    GetAudioUrl string
  | Submit string
  | Poll string
  | FileOp "document file_op"

datatype poll_answer =
    Completed transcript
  | Errored string
  | Waiting string
  | PollFailed string

record service =
  audio_url :: "string + string"
  submitted :: "string + string"
  polls :: "poll_answer list"

text \<open>\<open>get_youtube_audio_url\<close> and \<open>submit_transcription\<close>: \<open>Inl\<close> is the message of the
  exception raised.\<close>

definition get_youtube_audio_url :: "service \<Rightarrow> string \<Rightarrow> string + string" where
  "get_youtube_audio_url env youtube_id =
     (case audio_url env of
        Inl stderr \<Rightarrow> Inl (''Failed to get audio URL: '' @ stderr)
      | Inr url \<Rightarrow> Inr (strip url))"

definition submit_transcription :: "service \<Rightarrow> string \<Rightarrow> string + string" where
  "submit_transcription env url = submitted env"

text \<open>\<open>poll_transcription\<close> with \<open>max_wait = 600\<close>: the loop over the answers, with the polls
  it makes.\<close>

fun poll_transcription :: "string \<Rightarrow> poll_answer list \<Rightarrow> (string + transcript) \<times> action list" where
  "poll_transcription transcript_id [] = (Inl ''Transcription timed out after 600s'', [])"
| "poll_transcription transcript_id (Completed result # rest) = (Inr result, [Poll transcript_id])"
| "poll_transcription transcript_id (Errored e # rest) =
     (Inl (''Transcription failed: '' @ e), [Poll transcript_id])"
| "poll_transcription transcript_id (PollFailed e # rest) = (Inl e, [Poll transcript_id])"
| "poll_transcription transcript_id (Waiting status # rest) =
     (case poll_transcription transcript_id rest of
        (outcome, acts) \<Rightarrow> (outcome, Poll transcript_id # acts))"

fun is_waiting :: "poll_answer \<Rightarrow> bool" where
  "is_waiting (Waiting status) = True"
| "is_waiting _ = False"

text \<open>\<open>format_transcript_with_speakers\<close>\<close>

fun speaker_lines :: "string option \<Rightarrow> (string \<times> string) list \<Rightarrow> string list" where
  "speaker_lines current_speaker [] = []"
| "speaker_lines current_speaker ((speaker, text) # us) =
     (if Some speaker \<noteq> current_speaker
      then ([newline] @ ''**'' @ (if speaker = ''A'' then ''Michael'' else ''Guest'') @ '':** '' @ text)
             # speaker_lines (Some speaker) us
      else text # speaker_lines current_speaker us)"

definition format_transcript_with_speakers :: "transcript \<Rightarrow> string" where
  "format_transcript_with_speakers result =
     (if utterances result = [] then flat_text result
      else join '' '' (speaker_lines None (utterances result)))"

text \<open>The \<open>except\<close> branch of \<open>transcribe_episode\<close>.\<close>

definition record_failure :: "string \<Rightarrow> string \<Rightarrow> progress \<Rightarrow> action list \<Rightarrow>
    bool \<times> progress \<times> action list" where
  "record_failure episode_num e p acts =
     (let p' = p\<lparr>failed := failed p @ [(episode_num, e)],
                 pending := dict_pop episode_num (pending p)\<rparr>
      in (False, p', acts @ map FileOp (save_progress p')))"

text \<open>The part of \<open>transcribe_episode\<close> from the polling on.\<close>

definition poll_and_store :: "service \<Rightarrow> string \<Rightarrow> string \<Rightarrow> string \<Rightarrow> progress \<Rightarrow>
    action list \<Rightarrow> bool \<times> progress \<times> action list" where
  "poll_and_store env episode_num youtube_id transcript_id p acts =
     (case poll_transcription transcript_id (polls env) of
        (Inl e, polled) \<Rightarrow> record_failure episode_num e p (acts @ polled)
      | (Inr result, polled) \<Rightarrow>
          (let formatted = format_transcript_with_speakers result;
               written = write_text (output_file episode_num youtube_id)
                           (Markdown (''# Episode '' @ episode_num @ '' Transcript'' @
                                      [newline, newline] @ formatted))
                         @ write_text (raw_file episode_num youtube_id) (RawJson result);
               p' = p\<lparr>completed := completed p @ [episode_num],
                       pending := dict_pop episode_num (pending p)\<rparr>
           in (True, p', acts @ polled @ map FileOp (written @ save_progress p'))))"

text \<open>\<open>transcribe_episode\<close>: the result, the ledger in memory afterwards, and the actions
  in order. \<open>fs\<close> is the file system at the call.\<close>

definition transcribe_episode :: "service \<Rightarrow> files \<Rightarrow> string \<Rightarrow> string \<Rightarrow> progress \<Rightarrow>
    bool \<times> progress \<times> action list" where
  "transcribe_episode env fs episode_num youtube_id p =
     (if fs (output_file episode_num youtube_id) \<noteq> None then (True, p, [])
      else if episode_num \<in> set (completed p) then (True, p, [])
      else (case dict_get (pending p) episode_num of
              Some transcript_id \<Rightarrow> poll_and_store env episode_num youtube_id transcript_id p []
            | None \<Rightarrow>
                (case get_youtube_audio_url env youtube_id of
                   Inl e \<Rightarrow> record_failure episode_num e p [GetAudioUrl youtube_id]
                 | Inr url \<Rightarrow>
                     (case submit_transcription env url of
                        Inl e \<Rightarrow> record_failure episode_num e p [GetAudioUrl youtube_id, Submit url]
                      | Inr transcript_id \<Rightarrow>
                          (let p' = p\<lparr>pending := dict_set episode_num transcript_id (pending p)\<rparr>
                           in poll_and_store env episode_num youtube_id transcript_id p'
                                ([GetAudioUrl youtube_id, Submit url] @
                                 map FileOp (save_progress p')))))))"

text \<open>The file operations among the actions, and the file system they leave.\<close>

fun file_ops :: "action list \<Rightarrow> document file_op list" where
  "file_ops [] = []"
| "file_ops (FileOp op # acts) = op # file_ops acts"
| "file_ops (_ # acts) = file_ops acts"

definition files_after :: "action list \<Rightarrow> files \<Rightarrow> files" where
  "files_after acts fs = run_ops (file_ops acts) fs"



section \<open>pull_youtube_captions.py\<close>

record caption_progress =
  cap_completed :: "string list"
  cap_failed :: "string list"
  no_captions :: "string list"

definition CAPTION_PROGRESS_FILE :: string where
  "CAPTION_PROGRESS_FILE = ''scripts/caption_progress.json''"

definition save_caption_progress :: "caption_progress \<Rightarrow> caption_progress file_op list" where
  "save_caption_progress p = write_text CAPTION_PROGRESS_FILE p"

text \<open>How the run of yt-dlp ends: the time limit of 60 seconds passes, another exception
  is raised, or the process exits, with its error output and the paths of the files it
  has created.\<close>

datatype yt_dlp_run = TimeoutExpired | Raised | Exited string "string list"

text \<open>\<open>download_captions\<close>; \<open>existing\<close> are the paths present before the call.\<close>

definition download_captions :: "string list \<Rightarrow> yt_dlp_run \<Rightarrow> string \<Rightarrow> string \<Rightarrow> string" where
  "download_captions existing run youtube_id episode_num =
     (let output_path = ''transcripts/youtube/ep'' @ episode_num @ ''_'' @ youtube_id in
      if output_path @ ''.en.vtt'' \<in> set existing then ''exists''
      else (case run of
              TimeoutExpired \<Rightarrow> ''timeout''
            | Raised \<Rightarrow> ''failed''
            | Exited stderr created \<Rightarrow>
                if list_ex (\<lambda>ext. output_path @ ext \<in> set (existing @ created))
                     [''.en.vtt'', ''.en.srt'', ''.vtt'', ''.srt'']
                then ''success''
                else if sublist ''no subtitles'' (lower stderr) \<or>
                        sublist ''no automatic captions'' (lower stderr)
                then ''no_captions''
                else ''failed''))"

text \<open>The branch of the loop of \<open>main\<close> that records the result of one video.\<close>

definition record_caption_result :: "string \<Rightarrow> string \<Rightarrow> caption_progress \<Rightarrow> caption_progress" where
  "record_caption_result result yt_id p =
     (if result = ''success'' \<or> result = ''exists'' then p\<lparr>cap_completed := cap_completed p @ [yt_id]\<rparr>
      else if result = ''no_captions'' then p\<lparr>no_captions := no_captions p @ [yt_id]\<rparr>
      else p\<lparr>cap_failed := cap_failed p @ [yt_id]\<rparr>)"

text \<open>The loop of \<open>main\<close> over the videos to process, each with the way its run of yt-dlp
  ends: \<open>i\<close> is the index, the ledger is saved after every tenth video. The conversion of
  the caption files to text files, which follows the last save, is left out.\<close>

fun caption_loop :: "nat \<Rightarrow> (string \<times> string \<times> yt_dlp_run) list \<Rightarrow> string list \<Rightarrow>
    caption_progress \<Rightarrow> caption_progress file_op list \<Rightarrow>
    caption_progress \<times> caption_progress file_op list" where
  "caption_loop i [] existing p ops = (p, ops)"
| "caption_loop i ((ep_num, yt_id, run) # rest) existing p ops =
     (let result = download_captions existing run yt_id ep_num;
          existing' = (case run of Exited stderr created \<Rightarrow> existing @ created | _ \<Rightarrow> existing);
          p' = record_caption_result result yt_id p;
          ops' = (if (i + 1) mod 10 = 0 then ops @ save_caption_progress p' else ops)
      in caption_loop (i + 1) rest existing' p' ops')"

definition caption_main :: "(string \<times> string \<times> yt_dlp_run) list \<Rightarrow> string list \<Rightarrow>
    caption_progress \<Rightarrow> caption_progress \<times> caption_progress file_op list" where
  "caption_main with_yt existing p =
     (let completed_set = set (cap_completed p @ cap_failed p @ no_captions p);
          to_process = filter (\<lambda>(ep, yt, run). yt \<notin> completed_set) with_yt
      in case caption_loop 0 to_process existing p [] of
           (p', ops) \<Rightarrow> (p', ops @ save_caption_progress p'))"

section \<open>The two main loops over the workspace database\<close>

subsection \<open>main of sync_youtube_transcripts_to_notion.py\<close>

text \<open>The ledger of this script, and a caption file: the stem of its name, and its text,
  \<open>None\<close> when opening or reading it raises.\<close>

record sync_ledger =
  synced :: "string list"
  sync_failed :: "string list"
  skipped :: "string list"

record vtt_file =
  stem :: string
  vtt_text :: "string option"

definition SYNCED_FILE :: string where
  "SYNCED_FILE = ''scripts/notion_sync_progress.json''"

definition save_synced :: "sync_ledger \<Rightarrow> sync_ledger file_op list" where
  "save_synced d = write_text SYNCED_FILE d"

text \<open>The state of a run: the ledger in memory, the world, and the file operations made.\<close>

record yt_state =
  ledger :: sync_ledger
  yt_world :: world
  yt_ops :: "sync_ledger file_op list"

text \<open>\<open>synced_set\<close>: the episodes of the three lists of the ledger.\<close>

definition synced_set :: "sync_ledger \<Rightarrow> string set" where
  "synced_set d = set (synced d @ sync_failed d @ skipped d)"

text \<open>The first loop of \<open>main\<close>: the files to process, each with its episode number
  \<open>name.split('_')[0][2:]\<close>.\<close>

fun to_process :: "string set \<Rightarrow> vtt_file list \<Rightarrow> (string \<times> vtt_file) list" where
  "to_process done [] = []"
| "to_process done (vtt # vtts) =
     (let name = stem vtt in
      if prefix ''ep'' name
      then (let ep_num = drop 2 (hd (split_on CHR ''_'' name)) in
            if ep_num \<notin> done then (ep_num, vtt) # to_process done vtts
            else to_process done vtts)
      else to_process done vtts)"

text \<open>The body of the second loop for the item of index \<open>i\<close>. \<open>Inl\<close> is an exception that
  leaves \<open>main\<close>.\<close>

definition save_every_5 :: "nat \<Rightarrow> yt_state \<Rightarrow> yt_state" where
  "save_every_5 i st =
     (if (i + 1) mod 5 = 0 then st\<lparr>yt_ops := yt_ops st @ save_synced (ledger st)\<rparr> else st)"

definition note_synced :: "string \<Rightarrow> yt_state \<Rightarrow> yt_state" where
  "note_synced ep_num st = st\<lparr>ledger := (ledger st)\<lparr>synced := synced (ledger st) @ [ep_num]\<rparr>\<rparr>"

definition note_failed :: "string \<Rightarrow> yt_state \<Rightarrow> yt_state" where
  "note_failed ep_num st = st\<lparr>ledger := (ledger st)\<lparr>sync_failed := sync_failed (ledger st) @ [ep_num]\<rparr>\<rparr>"

definition note_skipped :: "string \<Rightarrow> yt_state \<Rightarrow> yt_state" where
  "note_skipped ep_num st = st\<lparr>ledger := (ledger st)\<lparr>skipped := skipped (ledger st) @ [ep_num]\<rparr>\<rparr>"

text \<open>The body from \<open>find_episode_page\<close> on; \<open>not page_id\<close> holds for no page and for an
  empty id.\<close>

definition yt_publish :: "nat \<Rightarrow> string \<Rightarrow> string \<Rightarrow> yt_state \<Rightarrow> error + yt_state" where
  "yt_publish i ep_num transcript st =
     (case find_episode_page_yt ep_num (yt_world st) of
        (Inl e, w1) \<Rightarrow> Inl e
      | (Inr None, w1) \<Rightarrow> Inr (note_failed ep_num (st\<lparr>yt_world := w1\<rparr>))
      | (Inr (Some pid), w1) \<Rightarrow>
          if pid = [] then Inr (note_failed ep_num (st\<lparr>yt_world := w1\<rparr>))
          else (case check_page_has_transcript pid w1 of
             (True, w2) \<Rightarrow> Inr (note_skipped ep_num (st\<lparr>yt_world := w2\<rparr>))
           | (False, w2) \<Rightarrow>
               (case add_transcript_to_page_yt pid transcript w2 of
                  (True, w3) \<Rightarrow> Inr (save_every_5 i (note_synced ep_num (st\<lparr>yt_world := w3\<rparr>)))
                | (False, w3) \<Rightarrow> Inr (save_every_5 i (note_failed ep_num (st\<lparr>yt_world := w3\<rparr>))))))"

definition yt_item :: "nat \<Rightarrow> string \<times> vtt_file \<Rightarrow> yt_state \<Rightarrow> error + yt_state" where
  "yt_item i item st =
     (case item of (ep_num, vtt) \<Rightarrow>
        if ep_num = [] \<or> \<not> isdigit ep_num then Inr st
        else (case vtt_text vtt of
                None \<Rightarrow> Inr (note_failed ep_num st)
              | Some vtt_content \<Rightarrow>
                  (let transcript = parse_vtt_to_text vtt_content in
                   if length transcript < 100 then Inr (note_skipped ep_num st)
                   else yt_publish i ep_num transcript st)))"

fun yt_loop :: "nat \<Rightarrow> (string \<times> vtt_file) list \<Rightarrow> yt_state \<Rightarrow> error + yt_state" where
  "yt_loop i [] st = Inr st"
| "yt_loop i (item # items) st =
     (case yt_item i item st of
        Inl e \<Rightarrow> Inl e
      | Inr st' \<Rightarrow> yt_loop (i + 1) items st')"

text \<open>\<open>main\<close>, from the loaded ledger \<open>synced_data\<close> on.\<close>

definition main_yt :: "vtt_file list \<Rightarrow> sync_ledger \<Rightarrow> world \<Rightarrow> error + yt_state" where
  "main_yt vtt_files synced_data w =
     (case yt_loop 0 (to_process (synced_set synced_data) vtt_files)
             \<lparr>ledger = synced_data, yt_world = w, yt_ops = []\<rparr> of
        Inl e \<Rightarrow> Inl e
      | Inr st \<Rightarrow> Inr (st\<lparr>yt_ops := yt_ops st @ save_synced (ledger st)\<rparr>))"

subsection \<open>main of sync_transcripts_to_notion.py\<close>

text \<open>An entry of \<open>mapping.json\<close>, and the text files: the content of a path, \<open>None\<close> when
  the path does not exist.\<close>

record mapping_entry =
  m_episode :: string
  m_guest :: string
  m_score :: real
  text_path :: "string option"

text \<open>The state of a run: the two counters and the world. The script keeps no ledger.\<close>

record map_state =
  synced_count :: nat
  failed_count :: nat
  map_world :: world

text \<open>The first loop: one entry for an episode, the one with the highest score.\<close>

fun by_episode :: "mapping_entry list \<Rightarrow> (string \<times> mapping_entry) list \<Rightarrow> (string \<times> mapping_entry) list" where
  "by_episode [] d = d"
| "by_episode (m # ms) d =
     (case dict_get d (m_episode m) of
        None \<Rightarrow> by_episode ms (dict_set (m_episode m) m d)
      | Some old \<Rightarrow>
          if m_score m > m_score old then by_episode ms (dict_set (m_episode m) m d)
          else by_episode ms d)"

text \<open>The sort key \<open>int(x[0]) if x[0].isdigit() else 0\<close>: \<open>None\<close> is the \<open>ValueError\<close> of
  \<open>int\<close> on a key that \<open>isdigit\<close> accepts and \<open>int\<close> does not read. \<open>sorted(..., reverse=True)\<close>
  computes the key of every item first, so that the exception leaves \<open>main\<close> before the
  loop starts; otherwise it is the stable sort by the negated key.\<close>

definition sort_number :: "string \<times> mapping_entry \<Rightarrow> int option" where
  "sort_number x = (if isdigit (fst x) then py_int (fst x) else Some 0)"

definition sorted_items :: "(string \<times> mapping_entry) list \<Rightarrow> (string \<times> mapping_entry) list option" where
  "sorted_items items =
     (if list_all (\<lambda>x. sort_number x \<noteq> None) items
      then Some (sort_key (\<lambda>x. case sort_number x of None \<Rightarrow> 0 | Some n \<Rightarrow> - n) items)
      else None)"

text \<open>The body of the second loop. The first component of the result is the exception
  that leaves \<open>main\<close>, if there is one.\<close>

definition count_failed :: "map_state \<Rightarrow> map_state" where
  "count_failed st = st\<lparr>failed_count := failed_count st + 1\<rparr>"

definition count_synced :: "map_state \<Rightarrow> map_state" where
  "count_synced st = st\<lparr>synced_count := synced_count st + 1\<rparr>"

definition map_publish :: "string \<Rightarrow> string \<Rightarrow> map_state \<Rightarrow> error option \<times> map_state" where
  "map_publish ep_num transcript st =
     (case find_episode_page_map ep_num (map_world st) of
        (Inl e, w1) \<Rightarrow> (Some e, st\<lparr>map_world := w1\<rparr>)
      | (Inr None, w1) \<Rightarrow> (None, count_failed (st\<lparr>map_world := w1\<rparr>))
      | (Inr (Some pid), w1) \<Rightarrow>
          if pid = [] then (None, count_failed (st\<lparr>map_world := w1\<rparr>))
          else (case add_transcript_to_page_map pid transcript w1 of
             (Inl e, w2) \<Rightarrow> (Some e, st\<lparr>map_world := w2\<rparr>)
           | (Inr True, w2) \<Rightarrow> (None, count_synced (st\<lparr>map_world := w2\<rparr>))
           | (Inr False, w2) \<Rightarrow> (None, count_failed (st\<lparr>map_world := w2\<rparr>))))"

definition map_item :: "(string \<Rightarrow> string option) \<Rightarrow> string \<times> mapping_entry \<Rightarrow> map_state \<Rightarrow>
    error option \<times> map_state" where
  "map_item texts item st =
     (case item of (ep_num, m) \<Rightarrow>
        (case (case text_path m of None \<Rightarrow> None
                | Some path \<Rightarrow> if path = [] then None else texts path) of
           None \<Rightarrow> (None, count_failed st)
         | Some file_text \<Rightarrow>
             (let transcript = strip file_text in
              if length transcript < 100 then (None, count_failed st)
              else map_publish ep_num transcript st)))"

fun map_loop :: "(string \<Rightarrow> string option) \<Rightarrow> (string \<times> mapping_entry) list \<Rightarrow> map_state \<Rightarrow>
    error option \<times> map_state" where
  "map_loop texts [] st = (None, st)"
| "map_loop texts (item # items) st =
     (case map_item texts item st of
        (Some e, st') \<Rightarrow> (Some e, st')
      | (None, st') \<Rightarrow> map_loop texts items st')"

definition main_map :: "mapping_entry list \<Rightarrow> (string \<Rightarrow> string option) \<Rightarrow> world \<Rightarrow>
    error option \<times> map_state" where
  "main_map mapping texts w =
     (let st = \<lparr>synced_count = 0, failed_count = 0, map_world = w\<rparr> in
      case sorted_items (by_episode mapping []) of
        None \<Rightarrow> (Some ValueError, st)
      | Some items \<Rightarrow> map_loop texts items st)"

section \<open>Example inputs\<close>

text \<open>A page of twenty paragraphs followed by a transcript heading, in a world without
  faults.\<close>

definition long_page :: page where
  "long_page = \<lparr>page_id = ''p1'', episode_no = 1171,
      children = replicate 20 (paragraph_block ''notes'') @ [heading_block]\<rparr>"

definition long_world :: world where
  "long_world = \<lparr>pages = [long_page], faults = [], sent = []\<rparr>"

text \<open>A page whose second block is the transcript heading, in a world without faults and in
  a world where the first request meets a network error.\<close>

definition headed_page :: page where
  "headed_page = \<lparr>page_id = ''p2'', episode_no = 1172,
      children = [divider_block, heading_block, paragraph_block ''hello world'']\<rparr>"

definition headed_world :: world where
  "headed_world = \<lparr>pages = [headed_page], faults = [], sent = []\<rparr>"

definition failing_world :: world where
  "failing_world = \<lparr>pages = [headed_page], faults = [Some URLError], sent = []\<rparr>"

text \<open>A transcript of 101 words of 950 characters each, and one of a single word of 2000
  characters.\<close>

definition overflow_word :: string where
  "overflow_word = replicate 950 CHR ''a''"

definition overflow_transcript :: string where
  "overflow_transcript = join '' '' (replicate 101 overflow_word)"

definition oversize_transcript :: string where
  "oversize_transcript = replicate 2000 CHR ''a''"

text \<open>A caption line whose text starts with a blank inside its markup.\<close>

definition markup_line :: string where
  "markup_line = ''<c> hello</c>''"

text \<open>A catalog of one episode, one of an episode without a guest name, and a similarity
  ratio that is 0.58 everywhere.\<close>

definition jane :: episode where
  "jane = \<lparr>episode_key = ''12'', guest = Some ''Jane Smith''\<rparr>"

definition nameless :: episode where
  "nameless = \<lparr>episode_key = ''13'', guest = Some []\<rparr>"

definition ratio_58 :: "string \<Rightarrow> string \<Rightarrow> real" where
  "ratio_58 a b = 58 / 100"

definition ratio_70 :: "string \<Rightarrow> string \<Rightarrow> real" where
  "ratio_70 a b = (if b = ''jane smith'' then 7 / 10 else 58 / 100)"

text \<open>A cue track without markup, with a line repeated in the next cue.\<close>

definition cue_track :: string where
  "cue_track = ''WEBVTT'' @ [newline] @ ''Kind: captions'' @ [newline] @ [newline] @
     ''00:00:01.000 --> 00:00:03.000'' @ [newline] @ ''hello world'' @ [newline] @ [newline] @
     ''00:00:03.000 --> 00:00:05.000'' @ [newline] @ ''hello world'' @ [newline] @ ''again'' @ [newline]"

text \<open>A ledger with one completed episode, and the ledger after the submission for a
  second episode.\<close>

definition old_ledger :: progress where
  "old_ledger = \<lparr>completed = [''1170''], failed = [], pending = []\<rparr>"

definition new_ledger :: progress where
  "new_ledger = \<lparr>completed = [''1170''], failed = [], pending = [(''1171'', ''job-1'')]\<rparr>"

definition old_files :: files where
  "old_files = (\<lambda>path. None)(PROGRESS_FILE \<mapsto> Holds (Ledger old_ledger))"

text \<open>A service that answers every poll made within the time limit with \<open>processing\<close>,
  and one whose second answer is the finished transcript.\<close>

definition slow_service :: service where
  "slow_service = \<lparr>audio_url = Inr ''https://audio/1171'', submitted = Inr ''job-1'',
      polls = replicate 60 (Waiting ''processing'')\<rparr>"



text \<open>The caption ledger before the first video.\<close>

definition no_progress :: caption_progress where
  "no_progress = \<lparr>cap_completed = [], cap_failed = [], no_captions = []\<rparr>"

text \<open>Two episodes with a page each, a transcript of 149 characters and one of 11, and
  the entries of the mapping for them.\<close>

definition alex_text :: string where
  "alex_text = concat (replicate 30 ''talk '')"

definition short_text :: string where
  "short_text = ''hello world''"

definition texts_on_disk :: "string \<Rightarrow> string option" where
  "texts_on_disk = ((\<lambda>path. None)(''transcripts/alex.txt'' \<mapsto> alex_text))
                     (''transcripts/short.txt'' \<mapsto> short_text)"

definition entry_1171 :: mapping_entry where
  "entry_1171 = \<lparr>m_episode = ''1171'', m_guest = ''Alex Rivera'', m_score = 1,
     text_path = Some ''transcripts/alex.txt''\<rparr>"

definition entry_1172 :: mapping_entry where
  "entry_1172 = \<lparr>m_episode = ''1172'', m_guest = ''Sam Lee'', m_score = 1,
     text_path = Some ''transcripts/alex.txt''\<rparr>"

definition short_entry :: mapping_entry where
  "short_entry = \<lparr>m_episode = ''1173'', m_guest = ''Kim Park'', m_score = 1,
     text_path = Some ''transcripts/short.txt''\<rparr>"

definition missing_entry :: mapping_entry where
  "missing_entry = \<lparr>m_episode = ''1173'', m_guest = ''Kim Park'', m_score = 1,
     text_path = Some ''transcripts/none.txt''\<rparr>"

definition two_pages :: "page list" where
  "two_pages = [\<lparr>page_id = ''page-1171'', episode_no = 1171, children = []\<rparr>,
                \<lparr>page_id = ''page-1172'', episode_no = 1172, children = []\<rparr>]"

definition calm_world :: world where
  "calm_world = \<lparr>pages = two_pages, faults = [], sent = []\<rparr>"

text \<open>The same world, where the first request meets a network error.\<close>

definition stormy_world :: world where
  "stormy_world = \<lparr>pages = two_pages, faults = [Some URLError], sent = []\<rparr>"

definition fresh_state :: map_state where
  "fresh_state = \<lparr>synced_count = 0, failed_count = 0, map_world = calm_world\<rparr>"

text \<open>Caption files for the two episodes, and an empty ledger.\<close>

definition vtt_1171 :: vtt_file where
  "vtt_1171 = \<lparr>stem = ''ep1171_8AkPm4Zy3MU.en'', vtt_text = Some alex_text\<rparr>"


definition short_vtt :: vtt_file where
  "short_vtt = \<lparr>stem = ''ep1173_kPm4Zy3MU8A.en'', vtt_text = Some short_text\<rparr>"

definition empty_ledger :: sync_ledger where
  "empty_ledger = \<lparr>synced = [], sync_failed = [], skipped = []\<rparr>"

text \<open>The world after a first run of \<open>main\<close> of \<open>sync_transcripts_to_notion.py\<close> for episode
  1171.\<close>

definition after_first_run :: world where
  "after_first_run = map_world (snd (main_map [entry_1171] texts_on_disk calm_world))"




section \<open>Properties\<close>

lemma scan_blocks_iff: "scan_blocks bs \<longleftrightarrow> (\<exists>b \<in> set bs. is_transcript_heading b)"
  by (induction bs) auto

lemma notion_request_yt_served:
  assumes "faults w = [] \<or> hd (faults w) = None"
  shows "fst (notion_request_yt r w) = (case serve r (pages w) of Inl f \<Rightarrow> None | Inr (resp, ps) \<Rightarrow> Some resp)"
  using assms
  by (auto simp: notion_request_yt_def urlopen_def Let_def split: list.splits option.splits sum.splits fault.splits prod.splits)

subsection \<open>Duplicate detection reads the first twenty blocks\<close>

text \<open>
  Claim C10, amended. \<open>check_page_has_transcript\<close> returns true iff the read of the child
  blocks is served and one of the first 20 child blocks of the page is a \<open>heading_2\<close> block
  whose first rich-text element has \<open>Transcript\<close> in its content. So a page whose
  transcript heading lies beyond the first 20 blocks is reported as having no transcript,
  and so is every page when the read fails.
\<close>

theorem check_page_has_transcript_first_20:
  "fst (check_page_has_transcript pid w) \<longleftrightarrow>
     (faults w = [] \<or> hd (faults w) = None) \<and>
     (\<exists>p. find (\<lambda>p. page_id p = pid) (pages w) = Some p \<and>
        (\<exists>b \<in> set (take 20 (children p)). btype b = ''heading_2'' \<and>
           (\<exists>t ts c. b_heading_2 b = Some (t # ts) \<and> content t = Some c \<and> sublist ''Transcript'' c)))"
proof -
  have heading: "is_transcript_heading b \<longleftrightarrow> btype b = ''heading_2'' \<and>
      (\<exists>t ts c. b_heading_2 b = Some (t # ts) \<and> content t = Some c \<and> sublist ''Transcript'' c)" for b
    by (auto simp: is_transcript_heading_def Let_def split: option.splits list.splits)
  show ?thesis
  proof (cases "faults w = [] \<or> hd (faults w) = None")
    case served: True
    show ?thesis
    proof (cases "find (\<lambda>p. page_id p = pid) (pages w)")
      case None
      then have "fst (notion_request_yt (GetChildren pid 20) w) = None"
        using served by (simp add: notion_request_yt_served)
      then have "\<not> fst (check_page_has_transcript pid w)"
        by (auto simp: check_page_has_transcript_def split: prod.splits option.splits)
      then show ?thesis using None by simp
    next
      case (Some p)
      then have "fst (notion_request_yt (GetChildren pid 20) w) = Some (ChildrenResults (take 20 (children p)))"
        using served by (simp add: notion_request_yt_served)
      then have "fst (check_page_has_transcript pid w) = scan_blocks (take 20 (children p))"
        by (auto simp: check_page_has_transcript_def split: prod.splits option.splits)
      then show ?thesis using served Some by (simp add: scan_blocks_iff heading)
    qed
  next
    case False
    then obtain f fs where "faults w = Some f # fs"
      by (cases "faults w") auto
    then have "fst (notion_request_yt (GetChildren pid 20) w) = None"
      by (cases f) (simp_all add: notion_request_yt_def urlopen_def Let_def)
    then have "\<not> fst (check_page_has_transcript pid w)"
      by (auto simp: check_page_has_transcript_def split: prod.splits option.splits)
    then show ?thesis using False by simp
  qed
qed

text \<open>The witness: the heading of \<open>headed_page\<close> is its second block, that of \<open>long_page\<close> is
  its 21st block.\<close>

lemma find_headed_page: "find (\<lambda>p. page_id p = ''p2'') (pages headed_world) = Some headed_page"
  by (simp add: headed_world_def headed_page_def)

lemma find_long_page: "find (\<lambda>p. page_id p = ''p1'') (pages long_world) = Some long_page"
  by (simp add: long_world_def long_page_def)

theorem check_page_has_transcript_first_20_witness:
  "fst (check_page_has_transcript ''p2'' headed_world) \<and>
   is_transcript_heading (children long_page ! 20) \<and>
   \<not> fst (check_page_has_transcript ''p1'' long_world)"
  using check_page_has_transcript_first_20 [of "''p2''" headed_world]
    check_page_has_transcript_first_20 [of "''p1''" long_world]
  by (simp add: find_headed_page find_long_page)
     (simp add: headed_world_def headed_page_def long_world_def long_page_def paragraph_block_def
      divider_block_def is_transcript_heading_def heading_block_def transcript_heading_def
      sublist_code prefix_code nth_append)

text \<open>The claim as stated fails when the read of the child blocks fails: the transcript
  heading is the second block of the page, and the function returns false.\<close>

theorem check_page_has_transcript_failed_read_counterexample:
  "find (\<lambda>p. page_id p = ''p2'') (pages failing_world) = Some headed_page \<and>
   is_transcript_heading (take 20 (children headed_page) ! 1) \<and>
   fst (check_page_has_transcript ''p2'' failing_world) = False"
  by code_simp

subsection \<open>Chunks and blocks of one append request\<close>

lemma split_ws_acc_word:
  "\<forall>c \<in> set w. \<not> is_space c \<Longrightarrow> split_ws_acc cur (w @ rest) = split_ws_acc (cur @ w) rest"
  by (induction w arbitrary: cur) auto

lemma join_Cons: "ws \<noteq> [] \<Longrightarrow> join sep (x # ws) = x @ sep @ join sep ws"
  by (cases ws) auto

lemma split_ws_acc_join:
  assumes "\<forall>w \<in> set ws. w \<noteq> [] \<and> (\<forall>c \<in> set w. \<not> is_space c)"
  shows "split_ws_acc [] (join '' '' ws) = ws"
  using assms
proof (induction ws)
  case Nil
  then show ?case by simp
next
  case (Cons x ws)
  have x: "x \<noteq> []" "\<forall>c \<in> set x. \<not> is_space c" using Cons.prems by auto
  show ?case
  proof (cases "ws = []")
    case True
    then show ?thesis using x split_ws_acc_word[of x "[]" "[]"] by simp
  next
    case False
    have "split_ws_acc [] (x @ '' '' @ join '' '' ws) = split_ws_acc x ('' '' @ join '' '' ws)"
      using x split_ws_acc_word[of x "[]"] by simp
    also have "\<dots> = x # split_ws_acc [] (join '' '' ws)"
      using x by (simp add: is_space_def)
    finally show ?thesis using Cons False by (simp add: join_Cons)
  qed
qed

lemma split_ws_join:
  "\<forall>w \<in> set ws. w \<noteq> [] \<and> (\<forall>c \<in> set w. \<not> is_space c) \<Longrightarrow> split_ws (join '' '' ws) = ws"
  by (simp add: split_ws_def split_ws_acc_join)

lemma chunk_loop_own_chunk:
  "length w = 950 \<Longrightarrow> chunk_loop (replicate n w) chunks [w] 950 = (chunks @ replicate n w, [w])"
  by (induction n arbitrary: chunks) (simp_all add: replicate_app_Cons_same)

lemma split_chunks_words_950:
  assumes "length w = 950" "\<forall>c \<in> set w. \<not> is_space c"
  shows "split_chunks (join '' '' (replicate (Suc (Suc n)) w)) = replicate (Suc (Suc n)) w"
proof -
  have "w \<noteq> []" using assms(1) by auto
  then have "split_ws (join '' '' (replicate (Suc (Suc n)) w)) = replicate (Suc (Suc n)) w"
    using assms(2) by (intro split_ws_join) auto
  moreover have "chunk_loop (replicate (Suc (Suc n)) w) [] [] 0 = ([w] @ replicate n w, [w])"
    using assms(1) chunk_loop_own_chunk[of w n "[w]"] by simp
  ultimately show ?thesis
    by (simp add: split_chunks_def replicate_app_Cons_same)
qed

lemma split_chunks_overflow: "split_chunks overflow_transcript = replicate 101 overflow_word"
proof -
  have "(101::nat) = Suc (Suc 99)" by simp
  moreover have "length overflow_word = 950" "\<forall>c \<in> set overflow_word. \<not> is_space c"
    by (simp_all add: overflow_word_def is_space_def)
  ultimately show ?thesis
    unfolding overflow_transcript_def using split_chunks_words_950[of overflow_word 99] by metis
qed

text \<open>
  Claim C6. The source states the limits of the platform: 2000 characters in a block, 100
  blocks in a request. \<open>add_transcript_to_page\<close> of \<open>sync_transcripts_to_notion.py\<close> sends the
  heading and up to 100 chunks: for a transcript of 101 chunks the request has 101 blocks,
  the last chunk is dropped and no block says so.
\<close>

theorem transcript_blocks_map_overflow:
  "transcript_blocks_map overflow_transcript = heading_block # replicate 100 (paragraph_block overflow_word)
   \<and> length (transcript_blocks_map overflow_transcript) = 101
   \<and> length (split_chunks overflow_transcript) = 101"
  by (simp add: transcript_blocks_map_def split_chunks_overflow)

text \<open>A word is never split: a word of 2000 characters is a chunk of 2000 characters, after
  an empty chunk.\<close>

lemma split_chunks_oversize: "split_chunks oversize_transcript = [[], oversize_transcript]"
  by (simp add: split_chunks_def split_ws_def oversize_transcript_def is_space_def
      split_ws_acc_word[of "replicate 2000 CHR ''a''" "[]" "[]", simplified])

text \<open>What \<open>sync_youtube_transcripts_to_notion.py\<close> does: never more than 100 blocks, and
  a truncation marker as the last block when chunks are left out. In both scripts a chunk
  longer than 1900 characters is a single word of the transcript.\<close>

lemma length_transcript_blocks_yt: "length (transcript_blocks_yt t) \<le> 100"
  by (simp add: transcript_blocks_yt_def Let_def)

lemma length_transcript_blocks_map: "length (transcript_blocks_map t) = 1 + min 100 (length (split_chunks t))"
  by (simp add: transcript_blocks_map_def Let_def min_def)

lemma transcript_blocks_yt_marker:
  "length (split_chunks t) > 97 \<Longrightarrow>
   last (transcript_blocks_yt t) = paragraph_block (truncation_marker (length (split_chunks t) - 97))"
  by (simp add: transcript_blocks_yt_def Let_def)

lemma length_join_snoc: "length (join sep (cur @ [w])) \<le> length (join sep cur) + length w + length sep"
proof (induction cur)
  case Nil
  then show ?case by simp
next
  case (Cons x cur)
  then show ?case by (cases "cur = []") (simp_all add: join_Cons)
qed

lemma chunk_loop_bound:
  assumes "chunk_loop ws chunks cur len = (chunks', cur')"
    and "\<forall>c \<in> set chunks. length c \<le> 1900 \<or> c \<in> W" "set ws \<subseteq> W"
    and "(length (join '' '' cur) \<le> len \<and> len \<le> 1900) \<or> (\<exists>w \<in> W. cur = [w] \<and> 1900 < len)"
  shows "(\<forall>c \<in> set chunks'. length c \<le> 1900 \<or> c \<in> W) \<and>
         (length (join '' '' cur') \<le> 1900 \<or> (\<exists>w \<in> W. cur' = [w]))"
  using assms
proof (induction ws arbitrary: chunks cur len)
  case Nil
  then show ?case by auto
next
  case (Cons word ws)
  show ?case
  proof (cases "len + length word + 1 > 1900")
    case True
    have a: "length (join '' '' cur) \<le> 1900 \<or> join '' '' cur \<in> W" using Cons.prems(4) by auto
    have b: "(length (join '' '' [word]) \<le> length word \<and> length word \<le> 1900) \<or>
             (\<exists>w \<in> W. [word] = [w] \<and> 1900 < length word)"
      using Cons.prems(3) by (cases "length word \<le> 1900") auto
    show ?thesis
    proof (rule Cons.IH[of "chunks @ [join '' '' cur]" "[word]" "length word"])
      show "chunk_loop ws (chunks @ [join '' '' cur]) [word] (length word) = (chunks', cur')"
        using Cons.prems(1) True by simp
      show "\<forall>c\<in>set (chunks @ [join '' '' cur]). length c \<le> 1900 \<or> c \<in> W"
        using Cons.prems(2) a by auto
      show "set ws \<subseteq> W" using Cons.prems(3) by simp
      show "(length (join '' '' [word]) \<le> length word \<and> length word \<le> 1900) \<or>
             (\<exists>w \<in> W. [word] = [w] \<and> 1900 < length word)" by (rule b)
    qed
  next
    case False
    then have c: "length (join '' '' cur) \<le> len" "len \<le> 1900" using Cons.prems(4) by auto
    have b: "length (join '' '' (cur @ [word])) \<le> len + length word + 1"
      using c length_join_snoc[of "'' ''" cur word] by simp
    show ?thesis
    proof (rule Cons.IH[of chunks "cur @ [word]" "len + length word + 1"])
      show "chunk_loop ws chunks (cur @ [word]) (len + length word + 1) = (chunks', cur')"
        using Cons.prems(1) False by simp
      show "\<forall>c\<in>set chunks. length c \<le> 1900 \<or> c \<in> W" by (rule Cons.prems(2))
      show "set ws \<subseteq> W" using Cons.prems(3) by simp
      show "(length (join '' '' (cur @ [word])) \<le> len + length word + 1 \<and> len + length word + 1 \<le> 1900) \<or>
            (\<exists>w \<in> W. cur @ [word] = [w] \<and> 1900 < len + length word + 1)"
        using b False by simp
    qed
  qed
qed

lemma split_chunks_bound:
  assumes c: "c \<in> set (split_chunks t)"
  shows "length c \<le> 1900 \<or> c \<in> set (split_ws t)"
proof -
  obtain chunks cur where l: "chunk_loop (split_ws t) [] [] 0 = (chunks, cur)" by force
  from chunk_loop_bound[OF l, of "set (split_ws t)"] 
  have "(\<forall>c \<in> set chunks. length c \<le> 1900 \<or> c \<in> set (split_ws t)) \<and>
        (length (join '' '' cur) \<le> 1900 \<or> (\<exists>w \<in> set (split_ws t). cur = [w]))"
    by simp
  then show ?thesis using c l by (auto simp: split_chunks_def split: if_splits)
qed

subsection \<open>The matcher\<close>

lemma match_loop_contained:
  assumes "\<forall>e' \<in> set pre. \<not> contained n e'" and "contained n e"
  shows "match_loop ratio n (pre @ e # post) bm bs = (Some e, 1)"
  using assms
  by (induction pre arbitrary: bm bs) (auto simp: Let_def contained_def)

lemma match_loop_none:
  assumes "\<forall>e \<in> set eps. \<not> contained n e"
    and "\<forall>e \<in> set eps. guest_of e \<noteq> [] \<longrightarrow> ratio n (guest_of e) \<le> bs \<or> ratio n (guest_of e) \<le> 0.6"
  shows "match_loop ratio n eps bm bs = (bm, bs)"
  using assms
  by (induction eps arbitrary: bm bs) (auto simp: Let_def contained_def)

lemma match_loop_best:
  assumes "\<forall>e' \<in> set (pre @ e # post). \<not> contained n e'"
    and "guest_of e \<noteq> []" "ratio n (guest_of e) > bs" "ratio n (guest_of e) > 0.6"
    and "\<forall>e' \<in> set pre. guest_of e' \<noteq> [] \<longrightarrow> ratio n (guest_of e') < ratio n (guest_of e)"
    and "\<forall>e' \<in> set post. guest_of e' \<noteq> [] \<longrightarrow> ratio n (guest_of e') \<le> ratio n (guest_of e)"
  shows "match_loop ratio n (pre @ e # post) bm bs = (Some e, ratio n (guest_of e))"
  using assms
proof (induction pre arbitrary: bm bs)
  case Nil
  have "match_loop ratio n post (Some e) (ratio n (guest_of e)) = (Some e, ratio n (guest_of e))"
    using Nil by (intro match_loop_none) auto
  then show ?case using Nil by (auto simp: Let_def contained_def)
next
  case (Cons a pre)
  have nc: "\<forall>e'\<in>set (pre @ e # post). \<not> contained n e'" using Cons.prems(1) by simp
  have lt: "\<forall>e'\<in>set pre. guest_of e' \<noteq> [] \<longrightarrow> ratio n (guest_of e') < ratio n (guest_of e)"
    using Cons.prems(5) by simp
  have step: "match_loop ratio n (pre @ e # post) bm' bs' = (Some e, ratio n (guest_of e))"
    if "bs' < ratio n (guest_of e)" for bm' bs'
    using Cons.IH[OF nc Cons.prems(2) that Cons.prems(4) lt Cons.prems(6)] .
  show ?case
  proof (cases "guest_of a = []")
    case True
    then show ?thesis using step[OF Cons.prems(3)] by simp
  next
    case False
    then have a: "\<not> sublist (guest_of a) n" "\<not> sublist n (guest_of a)"
      "ratio n (guest_of a) < ratio n (guest_of e)"
      using Cons.prems(1,5) by (auto simp: contained_def)
    show ?thesis using False a step[OF Cons.prems(3)] step[OF a(3)] by (simp add: Let_def)
  qed
qed

text \<open>
  Claim C5, as the code has it. The guest name of an episode is lowercased, nothing more,
  and an episode without a guest name is passed over. For the normalized file name, the
  first episode of the catalog whose guest name contains it or is contained in it is
  returned with confidence 1. When there is none, the first episode whose ratio is the
  greatest is returned with that ratio if the ratio exceeds 0.6, and no episode, with
  score 0, if no ratio exceeds 0.6.
\<close>

theorem match_guest_policy:
  "(episodes = pre @ e # post \<and> (\<forall>e' \<in> set pre. \<not> contained (normalize_name srt_name) e') \<and>
      contained (normalize_name srt_name) e
      \<longrightarrow> match_guest ratio srt_name episodes = (Some e, 1)) \<and>
   ((\<forall>e' \<in> set episodes. \<not> contained (normalize_name srt_name) e') \<and>
      episodes = pre @ e # post \<and> guest_of e \<noteq> [] \<and>
      ratio (normalize_name srt_name) (guest_of e) > 0.6 \<and>
      (\<forall>e' \<in> set pre. guest_of e' \<noteq> [] \<longrightarrow>
          ratio (normalize_name srt_name) (guest_of e') < ratio (normalize_name srt_name) (guest_of e)) \<and>
      (\<forall>e' \<in> set post. guest_of e' \<noteq> [] \<longrightarrow>
          ratio (normalize_name srt_name) (guest_of e') \<le> ratio (normalize_name srt_name) (guest_of e))
      \<longrightarrow> match_guest ratio srt_name episodes = (Some e, ratio (normalize_name srt_name) (guest_of e))) \<and>
   ((\<forall>e' \<in> set episodes. \<not> contained (normalize_name srt_name) e') \<and>
      (\<forall>e' \<in> set episodes. guest_of e' \<noteq> [] \<longrightarrow> ratio (normalize_name srt_name) (guest_of e') \<le> 0.6)
      \<longrightarrow> match_guest ratio srt_name episodes = (None, 0))"
proof (intro conjI impI)
  assume "episodes = pre @ e # post \<and> (\<forall>e' \<in> set pre. \<not> contained (normalize_name srt_name) e') \<and>
      contained (normalize_name srt_name) e"
  then show "match_guest ratio srt_name episodes = (Some e, 1)"
    by (simp add: match_guest_def match_loop_contained)
next
  assume a: "(\<forall>e' \<in> set episodes. \<not> contained (normalize_name srt_name) e') \<and>
      episodes = pre @ e # post \<and> guest_of e \<noteq> [] \<and>
      ratio (normalize_name srt_name) (guest_of e) > 0.6 \<and>
      (\<forall>e' \<in> set pre. guest_of e' \<noteq> [] \<longrightarrow>
          ratio (normalize_name srt_name) (guest_of e') < ratio (normalize_name srt_name) (guest_of e)) \<and>
      (\<forall>e' \<in> set post. guest_of e' \<noteq> [] \<longrightarrow>
          ratio (normalize_name srt_name) (guest_of e') \<le> ratio (normalize_name srt_name) (guest_of e))"
  then have "0 < ratio (normalize_name srt_name) (guest_of e)" by linarith
  with a show "match_guest ratio srt_name episodes = (Some e, ratio (normalize_name srt_name) (guest_of e))"
    unfolding match_guest_def
    by (auto intro!: match_loop_best)
next
  assume "(\<forall>e' \<in> set episodes. \<not> contained (normalize_name srt_name) e') \<and>
      (\<forall>e' \<in> set episodes. guest_of e' \<noteq> [] \<longrightarrow> ratio (normalize_name srt_name) (guest_of e') \<le> 0.6)"
  then show "match_guest ratio srt_name episodes = (None, 0)"
    unfolding match_guest_def by (intro match_loop_none) auto
qed

text \<open>The witnesses: \<open>Jane Smith (Final)\<close> against the guest \<open>Jane Smith\<close>, a ratio of 0.7,
  and a ratio of 0.58.\<close>

lemma normalize_jane: "normalize_name ''Jane Smith (Final)'' = ''jane smith (final)''"
  by code_simp

lemma normalize_v2: "normalize_name ''jsmith_interview_v2'' = ''jsmith interview v2''"
  by code_simp

lemma guest_of_jane: "guest_of jane = ''jane smith''"
  unfolding jane_def by code_simp

lemma guest_of_nameless: "guest_of nameless = []"
  unfolding nameless_def by code_simp

lemma contained_jane: "contained ''jane smith (final)'' jane"
  unfolding contained_def guest_of_jane by (simp add: sublist_code prefix_code)

lemma not_contained_v2: "\<not> contained ''jsmith interview v2'' jane"
  unfolding contained_def guest_of_jane by (simp add: sublist_code prefix_code)

lemma not_contained_nameless: "\<not> contained n nameless"
  by (simp add: contained_def guest_of_nameless)

theorem match_guest_policy_witness:
  "match_guest ratio_58 ''Jane Smith (Final)'' [nameless, jane] = (Some jane, 1) \<and>
   match_guest ratio_70 ''jsmith_interview_v2'' [nameless, jane]
     = (Some jane, 7 / 10) \<and>
   match_guest ratio_58 ''jsmith_interview_v2'' [nameless, jane] = (None, 0)"
proof (intro conjI)
  show "match_guest ratio_58 ''Jane Smith (Final)'' [nameless, jane] = (Some jane, 1)"
    using match_guest_policy[THEN conjunct1,
        of "[nameless, jane]" "[nameless]" jane "[]" "''Jane Smith (Final)''" ratio_58]
    by (simp add: normalize_jane contained_jane not_contained_nameless)
  show "match_guest ratio_70 ''jsmith_interview_v2'' [nameless, jane]
     = (Some jane, 7 / 10)"
    using match_guest_policy[THEN conjunct2, THEN conjunct1,
        of "[nameless, jane]" "''jsmith_interview_v2''" "[nameless]" jane "[]"
        ratio_70]
    by (simp add: normalize_v2 not_contained_v2 not_contained_nameless guest_of_nameless guest_of_jane
        ratio_70_def)
  show "match_guest ratio_58 ''jsmith_interview_v2'' [nameless, jane] = (None, 0)"
    using match_guest_policy[THEN conjunct2, THEN conjunct2,
        of "[nameless, jane]" "''jsmith_interview_v2''" ratio_58]
    by (simp add: normalize_v2 not_contained_v2 not_contained_nameless ratio_58_def)
qed

text \<open>The claim as stated fails for an episode without a guest name: the empty string is
  contained in every name, and the episode is not returned.\<close>

theorem match_guest_empty_guest_counterexample:
  "sublist (guest_of nameless) (normalize_name ''x'') \<and>
   match_guest ratio_58 ''x'' [nameless] = (None, 0)"
  by (simp add: guest_of_nameless match_guest_def)

subsection \<open>The normalizers\<close>

lemma split_on_no_sep: "l \<in> set (split_on c s) \<Longrightarrow> c \<notin> set l"
  by (induction s arbitrary: l) (auto split: if_splits list.splits)

lemma split_on_single: "c \<notin> set s \<Longrightarrow> split_on c s = [s]"
  by (induction s) auto

lemma set_dropWhile_subset: "set (dropWhile P xs) \<subseteq> set xs"
  using set_dropWhileD by fast

lemma set_strip: "set (strip x) \<subseteq> set x"
proof -
  have "set (strip x) = set (dropWhile is_space (rev (dropWhile is_space x)))"
    by (simp only: strip_def set_rev)
  also have "\<dots> \<subseteq> set (rev (dropWhile is_space x))" by (rule set_dropWhile_subset)
  also have "\<dots> = set (dropWhile is_space x)" by (simp only: set_rev)
  also have "\<dots> \<subseteq> set x" by (rule set_dropWhile_subset)
  finally show ?thesis .
qed

lemma strip_hd: "strip x \<noteq> [] \<Longrightarrow> \<not> is_space (hd (strip x))"
proof -
  assume a: "strip x \<noteq> []"
  let ?d = "dropWhile is_space x"
  have d: "?d \<noteq> []" using a by (cases "?d = []") (simp_all add: strip_def)
  then have h: "\<not> is_space (hd ?d)" by (simp add: hd_dropWhile)
  obtain k where "dropWhile is_space (rev ?d) = drop k (rev ?d)"
    using dropWhile_eq_drop by blast
  then have "strip x = take (length ?d - k) ?d"
    by (simp add: strip_def rev_drop)
  then have "hd (strip x) = hd ?d" using a by (metis hd_take take_eq_Nil gr0I)
  then show ?thesis using h by simp
qed

lemma strip_last: "strip x \<noteq> [] \<Longrightarrow> \<not> is_space (last (strip x))"
proof -
  assume a: "strip x \<noteq> []"
  then have "dropWhile is_space (rev (dropWhile is_space x)) \<noteq> []" by (simp add: strip_def)
  then have "\<not> is_space (hd (dropWhile is_space (rev (dropWhile is_space x))))"
    by (simp add: hd_dropWhile)
  then show ?thesis using a by (simp add: strip_def last_rev)
qed

lemma strip_id: "x \<noteq> [] \<Longrightarrow> \<not> is_space (hd x) \<Longrightarrow> \<not> is_space (last x) \<Longrightarrow> strip x = x"
proof -
  assume a: "x \<noteq> []" "\<not> is_space (hd x)" "\<not> is_space (last x)"
  have 1: "dropWhile is_space x = x" using a by (cases x) auto
  have "rev x \<noteq> []" "\<not> is_space (hd (rev x))" using a by (simp_all add: hd_rev)
  then have 2: "dropWhile is_space (rev x) = rev x" by (cases "rev x") auto
  show ?thesis by (simp add: strip_def 1 2)
qed

lemma strip_Nil: "strip [] = []"
  by (simp add: strip_def)

lemma join_clean:
  assumes "ls \<noteq> []" "\<forall>l \<in> set ls. l \<noteq> [] \<and> \<not> is_space (hd l) \<and> \<not> is_space (last l) \<and> c \<notin> set l"
    and "c \<noteq> CHR '' ''"
  shows "join '' '' ls \<noteq> [] \<and> \<not> is_space (hd (join '' '' ls)) \<and>
         \<not> is_space (last (join '' '' ls)) \<and> c \<notin> set (join '' '' ls)"
  using assms
proof (induction ls)
  case Nil
  then show ?case by simp
next
  case (Cons x ls)
  show ?case
  proof (cases "ls = []")
    case True
    then show ?thesis using Cons.prems by simp
  next
    case False
    then have "join '' '' ls \<noteq> [] \<and> \<not> is_space (hd (join '' '' ls)) \<and>
         \<not> is_space (last (join '' '' ls)) \<and> c \<notin> set (join '' '' ls)"
      using Cons by simp
    then show ?thesis using Cons.prems False by (simp add: join_Cons)
  qed
qed

lemma sublist_across:
  assumes "sublist q (a @ c # b)" "c \<notin> set q"
  shows "sublist q a \<or> sublist q b"
proof -
  from assms(1) consider "sublist q a" | "sublist q (c # b)"
    | xs1 xs2 where "q = xs1 @ xs2" "suffix xs1 a" "prefix xs2 (c # b)"
    by (auto simp: sublist_append)
  then show ?thesis
  proof cases
    case 1
    then show ?thesis by simp
  next
    case 2
    then have "prefix q (c # b) \<or> sublist q b" by (simp add: sublist_Cons_right)
    moreover have "prefix q (c # b) \<Longrightarrow> q = []" using assms(2) by (cases q) auto
    ultimately show ?thesis by auto
  next
    case 3
    have "xs2 = []" using 3(1,3) assms(2) by (cases xs2) auto
    then show ?thesis using 3 by auto
  qed
qed

lemma sublist_join:
  assumes "sublist q (join '' '' ls)" "CHR '' '' \<notin> set q" "q \<noteq> []"
  shows "\<exists>l \<in> set ls. sublist q l"
  using assms
proof (induction ls)
  case Nil
  then show ?case by simp
next
  case (Cons x ls)
  show ?case
  proof (cases "ls = []")
    case True
    then show ?thesis using Cons.prems by simp
  next
    case False
    then have "sublist q (x @ CHR '' '' # join '' '' ls)" using Cons.prems(1) by (simp add: join_Cons)
    then have "sublist q x \<or> sublist q (join '' '' ls)" using Cons.prems(2) by (rule sublist_across)
    then show ?thesis using Cons by auto
  qed
qed

lemma prefix_across:
  assumes "prefix p (a @ c # b)" "c \<notin> set p"
  shows "prefix p a"
proof -
  from assms(1) have "prefix p a \<or> (\<exists>us. p = a @ us \<and> prefix us (c # b))"
    by (simp add: prefix_append)
  moreover have "us = []" if "p = a @ us" "prefix us (c # b)" for us
    using that assms(2) by (cases us) auto
  ultimately show ?thesis by auto
qed

lemma prefix_join:
  assumes "prefix p (join '' '' (x # ls))" "CHR '' '' \<notin> set p"
  shows "prefix p x"
proof (cases "ls = []")
  case True
  then show ?thesis using assms by simp
next
  case False
  then show ?thesis using assms prefix_across[of p x "CHR '' ''" "join '' '' ls"] by (simp add: join_Cons)
qed

lemma join_blank: "ls \<noteq> [] \<Longrightarrow> CHR '' '' \<in> set (join '' '' (x # ls))"
  by (simp add: join_Cons)

lemma timestamp_shape_chars:
  assumes "timestamp_shape p" "i < 8"
  shows "is_decimal (p ! i) \<or> p ! i = CHR '':''"
proof -
  have p: "is_decimal (p ! 0)" "is_decimal (p ! 1)" "p ! 2 = CHR '':''" "is_decimal (p ! 3)"
    "is_decimal (p ! 4)" "p ! 5 = CHR '':''" "is_decimal (p ! 6)" "is_decimal (p ! 7)"
    using assms(1) unfolding timestamp_shape_def by blast+
  from assms(2) have "i = 0 \<or> i = 1 \<or> i = 2 \<or> i = 3 \<or> i = 4 \<or> i = 5 \<or> i = 6 \<or> i = 7" by arith
  then show ?thesis using p by (elim disjE) (simp_all only: simp_thms)
qed

lemma match_timestamp_prefix:
  "match_timestamp line \<longleftrightarrow> (\<exists>p. timestamp_shape p \<and> prefix p line)"
proof
  assume "match_timestamp line"
  then have "timestamp_shape (take 8 line) \<and> prefix (take 8 line) line"
    by (simp only: match_timestamp_def take_is_prefix simp_thms)
  then show "\<exists>p. timestamp_shape p \<and> prefix p line" by (rule exI)
next
  assume "\<exists>p. timestamp_shape p \<and> prefix p line"
  then obtain p where p: "timestamp_shape p" "prefix p line" by blast
  then have "length p = 8" by (simp only: timestamp_shape_def)
  then have "take 8 line = p" using p(2) by (auto simp: prefix_def)
  then show "match_timestamp line" using p(1) by (simp only: match_timestamp_def)
qed

lemma timestamp_shape_no_blank: "timestamp_shape p \<Longrightarrow> CHR '' '' \<notin> set p"
proof
  assume a: "timestamp_shape p" "CHR '' '' \<in> set p"
  then obtain i where i: "i < length p" "p ! i = CHR '' ''" by (auto simp: in_set_conv_nth)
  then have "i < 8" using a(1) by (simp only: timestamp_shape_def)
  from timestamp_shape_chars[OF a(1) this] i(2) show False by (simp add: is_decimal_def)
qed

lemma match_digits_no_newline:
  assumes "newline \<notin> set line"
  shows "match_digits line \<longleftrightarrow> line \<noteq> [] \<and> list_all is_decimal line"
proof -
  have "line \<noteq> [] \<Longrightarrow> last line \<noteq> newline" using assms last_in_set by force
  then show ?thesis by (auto simp: match_digits_def Let_def)
qed

lemma srt_lines_kept:
  "l \<in> set (srt_lines ls) \<Longrightarrow>
     (\<exists>x \<in> set ls. l = strip x) \<and> l \<noteq> [] \<and> \<not> match_digits l \<and> \<not> match_timestamp l \<and>
     \<not> sublist ''-->'' l"
proof (induction ls)
  case Nil
  then show ?case by simp
next
  case (Cons a ls)
  show ?case
  proof (cases "l \<in> set (srt_lines ls)")
    case True
    then show ?thesis using Cons.IH by simp
  next
    case False
    then have k: "\<not> match_digits (strip a)" "\<not> match_timestamp (strip a)"
      "\<not> sublist ''-->'' (strip a)" "strip a \<noteq> []" "l = strip a"
      using Cons.prems by (simp_all add: Let_def split: if_splits)
    then show ?thesis by simp
  qed
qed

lemma srt_lines_single:
  "l \<noteq> [] \<Longrightarrow> \<not> match_digits l \<Longrightarrow> \<not> match_timestamp l \<Longrightarrow> \<not> sublist ''-->'' l \<Longrightarrow>
   strip l = l \<Longrightarrow> srt_lines [l] = [l]"
  by (simp add: Let_def)

lemma srt_to_text_Nil: "srt_to_text [] = []"
  by (simp add: srt_to_text_def strip_Nil match_digits_def match_timestamp_def timestamp_shape_def)

lemma srt_to_text_clean:
  assumes "J \<noteq> []" "\<not> is_space (hd J)" "\<not> is_space (last J)" "newline \<notin> set J"
    and "\<not> match_digits J" "\<not> match_timestamp J" "\<not> sublist ''-->'' J"
  shows "srt_to_text J = J"
proof -
  have "strip J = J" using assms(1,2,3) by (rule strip_id)
  then have "srt_lines [J] = [J]" using assms(1,5,6,7) by (simp add: Let_def)
  moreover have "split_on newline J = [J]" using assms(4) by (rule split_on_single)
  ultimately show ?thesis by (simp add: srt_to_text_def)
qed

lemma srt_lines_clean:
  assumes "l \<in> set (srt_lines (split_on newline s))"
  shows "l \<noteq> [] \<and> \<not> is_space (hd l) \<and> \<not> is_space (last l) \<and> newline \<notin> set l"
proof -
  from srt_lines_kept[OF assms] obtain x where
    x: "x \<in> set (split_on newline s)" "l = strip x" "l \<noteq> []" by blast
  have "newline \<notin> set x" using x(1) by (rule split_on_no_sep)
  then have n: "newline \<notin> set l" using x(2) set_strip[of x] by blast
  have "\<not> is_space (hd l)" "\<not> is_space (last l)"
    using x(2,3) strip_hd[of x] strip_last[of x] by simp_all
  then show ?thesis using x(3) n by simp
qed

lemma srt_to_text_idem: "srt_to_text (srt_to_text s) = srt_to_text s"
proof -
  define ls where "ls = srt_lines (split_on newline s)"
  define J where "J = join '' '' ls"
  have J: "srt_to_text s = J" by (simp add: srt_to_text_def ls_def J_def)
  have "srt_to_text J = J"
  proof (cases ls)
    case Nil
    then have "J = []" by (simp add: J_def)
    then show ?thesis by (simp only: srt_to_text_Nil)
  next
    case (Cons x rest)
    have kept: "\<not> match_digits l \<and> \<not> match_timestamp l \<and> \<not> sublist ''-->'' l"
      if "l \<in> set ls" for l
      using srt_lines_kept[of l "split_on newline s"] that unfolding ls_def by blast
    have clean: "\<forall>l \<in> set ls. l \<noteq> [] \<and> \<not> is_space (hd l) \<and> \<not> is_space (last l) \<and> newline \<notin> set l"
      using srt_lines_clean unfolding ls_def by blast
    have ne: "ls \<noteq> []" using Cons by simp
    have nb: "newline \<noteq> CHR '' ''" by (simp add: newline_def)
    have Jc: "J \<noteq> [] \<and> \<not> is_space (hd J) \<and> \<not> is_space (last J) \<and> newline \<notin> set J"
      unfolding J_def using ne clean nb by (rule join_clean)
    have xk: "\<not> match_digits x" "\<not> match_timestamp x" using kept[of x] Cons by simp_all
    have 1: "\<not> sublist ''-->'' J"
    proof
      assume "sublist ''-->'' J"
      then have "\<exists>l \<in> set ls. sublist ''-->'' l" unfolding J_def by (rule sublist_join) simp_all
      then show False using kept by blast
    qed
    have 2: "\<not> match_timestamp J"
    proof
      assume "match_timestamp J"
      then obtain p where p: "timestamp_shape p" "prefix p J"
        unfolding match_timestamp_prefix by blast
      have "prefix p x" using p(2) timestamp_shape_no_blank[OF p(1)] unfolding J_def Cons
        by (rule prefix_join)
      then show False using p(1) xk(2) unfolding match_timestamp_prefix by blast
    qed
    have 3: "\<not> match_digits J"
    proof (cases "rest = []")
      case True
      then show ?thesis using xk(1) by (simp add: J_def Cons)
    next
      case False
      then have "CHR '' '' \<in> set J" unfolding J_def Cons by (rule join_blank)
      moreover have "\<not> is_decimal CHR '' ''" by (simp add: is_decimal_def)
      ultimately have "\<not> list_all is_decimal J" unfolding list_all_iff by blast
      then show ?thesis using Jc by (simp add: match_digits_no_newline)
    qed
    show ?thesis using Jc 1 2 3 by (intro srt_to_text_clean) simp_all
  qed
  then show ?thesis by (simp only: J)
qed

lemma remove_tags_id: "CHR ''<'' \<notin> set l \<Longrightarrow> remove_tags False l = l"
  by (induction l) auto

lemma split_on_not_Nil: "split_on c s \<noteq> []"
  by (induction s) (auto split: list.splits)

lemma set_dedupe: "set (dedupe prev xs) \<subseteq> set xs"
  by (induction xs arbitrary: prev) auto

lemma dedupe_Nil_iff: "dedupe None xs = [] \<longleftrightarrow> xs = []"
  by (cases xs) simp_all

lemma split_on_chars: "l \<in> set (split_on c s) \<Longrightarrow> set l \<subseteq> set s"
proof (induction s arbitrary: l)
  case Nil
  then show ?case by simp
next
  case (Cons a s)
  show ?case
  proof (cases "a = c")
    case True
    then show ?thesis using Cons by auto
  next
    case False
    obtain p ps where ps: "split_on c s = p # ps"
      using split_on_not_Nil[of c s] by (cases "split_on c s") auto
    then have "l = a # p \<or> l \<in> set ps" using Cons.prems False by simp
    then show ?thesis using Cons.IH[of p] Cons.IH[of l] ps by auto
  qed
qed

lemma set_join: "set (join '' '' ls) \<subseteq> (\<Union>l \<in> set ls. set l) \<union> {CHR '' ''}"
proof (induction ls)
  case Nil
  then show ?case by simp
next
  case (Cons x ls)
  then show ?case by (cases "ls = []") (auto simp: join_Cons)
qed

lemma vtt_lines_kept:
  assumes "\<forall>x \<in> set ls. CHR ''<'' \<notin> set x" "l \<in> set (vtt_lines ls)"
  shows "(\<exists>x \<in> set ls. l = strip x) \<and> l \<noteq> [] \<and> \<not> sublist ''-->'' l \<and>
     \<not> prefix ''WEBVTT'' l \<and> \<not> prefix ''Kind:'' l \<and> \<not> prefix ''Language:'' l \<and> \<not> isdigit l"
  using assms
proof (induction ls)
  case Nil
  then show ?case by simp
next
  case (Cons a ls)
  show ?case
  proof (cases "l \<in> set (vtt_lines ls)")
    case True
    then show ?thesis using Cons by simp
  next
    case False
    have "CHR ''<'' \<notin> set (strip a)" using Cons.prems(1) set_strip[of a] by auto
    then have r: "remove_tags False (strip a) = strip a" by (rule remove_tags_id)
    have k: "strip a \<noteq> []" "\<not> sublist ''-->'' (strip a)" "\<not> prefix ''WEBVTT'' (strip a)"
      "\<not> prefix ''Kind:'' (strip a)" "\<not> prefix ''Language:'' (strip a)" "\<not> isdigit (strip a)"
      "l = strip a"
      using Cons.prems(2) False by (simp_all add: Let_def r split: if_splits)
    then show ?thesis by simp
  qed
qed

lemma parse_vtt_to_text_Nil: "parse_vtt_to_text [] = []"
  by (simp add: parse_vtt_to_text_def strip_Nil)

lemma parse_vtt_to_text_clean:
  assumes "J \<noteq> []" "\<not> is_space (hd J)" "\<not> is_space (last J)" "newline \<notin> set J"
    and "\<not> sublist ''-->'' J" "\<not> prefix ''WEBVTT'' J" "\<not> prefix ''Kind:'' J"
    and "\<not> prefix ''Language:'' J" "\<not> isdigit J" "CHR ''<'' \<notin> set J"
  shows "parse_vtt_to_text J = J"
proof -
  have "strip J = J" using assms(1,2,3) by (rule strip_id)
  moreover have "remove_tags False J = J" using assms(10) by (rule remove_tags_id)
  ultimately have "vtt_lines [J] = [J]" using assms(1,5,6,7,8,9) by (simp add: Let_def)
  moreover have "split_on newline J = [J]" using assms(4) by (rule split_on_single)
  ultimately show ?thesis by (simp add: parse_vtt_to_text_def)
qed

lemma parse_vtt_to_text_idem:
  assumes "CHR ''<'' \<notin> set v"
  shows "parse_vtt_to_text (parse_vtt_to_text v) = parse_vtt_to_text v"
proof -
  define ls where "ls = dedupe None (vtt_lines (split_on newline v))"
  define J where "J = join '' '' ls"
  have J: "parse_vtt_to_text v = J" by (simp add: parse_vtt_to_text_def ls_def J_def)
  have src: "\<forall>x \<in> set (split_on newline v). CHR ''<'' \<notin> set x"
    using assms split_on_chars by blast
  have sub: "set ls \<subseteq> set (vtt_lines (split_on newline v))"
    unfolding ls_def by (rule set_dedupe)
  have kept: "(\<exists>x \<in> set (split_on newline v). l = strip x) \<and> l \<noteq> [] \<and> \<not> sublist ''-->'' l \<and>
     \<not> prefix ''WEBVTT'' l \<and> \<not> prefix ''Kind:'' l \<and> \<not> prefix ''Language:'' l \<and> \<not> isdigit l"
    if "l \<in> set ls" for l
    using vtt_lines_kept[OF src, of l] that sub by blast
  have "parse_vtt_to_text J = J"
  proof (cases ls)
    case Nil
    then have "J = []" by (simp add: J_def)
    then show ?thesis by (simp only: parse_vtt_to_text_Nil)
  next
    case (Cons x rest)
    have clean: "\<forall>l \<in> set ls. l \<noteq> [] \<and> \<not> is_space (hd l) \<and> \<not> is_space (last l) \<and> newline \<notin> set l"
    proof
      fix l assume "l \<in> set ls"
      then obtain y where y: "y \<in> set (split_on newline v)" "l = strip y" "l \<noteq> []"
        using kept by blast
      have "newline \<notin> set y" using y(1) by (rule split_on_no_sep)
      then have n: "newline \<notin> set l" using y(2) set_strip[of y] by blast
      have "\<not> is_space (hd l)" "\<not> is_space (last l)"
        using y(2,3) strip_hd[of y] strip_last[of y] by simp_all
      then show "l \<noteq> [] \<and> \<not> is_space (hd l) \<and> \<not> is_space (last l) \<and> newline \<notin> set l"
        using y(3) n by simp
    qed
    have ne: "ls \<noteq> []" using Cons by simp
    have nb: "newline \<noteq> CHR '' ''" by (simp add: newline_def)
    have Jc: "J \<noteq> [] \<and> \<not> is_space (hd J) \<and> \<not> is_space (last J) \<and> newline \<notin> set J"
      unfolding J_def using ne clean nb by (rule join_clean)
    have xk: "\<not> prefix ''WEBVTT'' x" "\<not> prefix ''Kind:'' x" "\<not> prefix ''Language:'' x"
      "\<not> isdigit x"
      using kept[of x] Cons by simp_all
    have 1: "\<not> sublist ''-->'' J"
    proof
      assume "sublist ''-->'' J"
      then have "\<exists>l \<in> set ls. sublist ''-->'' l" unfolding J_def by (rule sublist_join) simp_all
      then show False using kept by blast
    qed
    have pj: "prefix p J \<Longrightarrow> CHR '' '' \<notin> set p \<Longrightarrow> prefix p x" for p
      unfolding J_def Cons by (rule prefix_join)
    have 2: "\<not> prefix ''WEBVTT'' J" using pj[of "''WEBVTT''"] xk(1) by auto
    have 3: "\<not> prefix ''Kind:'' J" using pj[of "''Kind:''"] xk(2) by auto
    have 4: "\<not> prefix ''Language:'' J" using pj[of "''Language:''"] xk(3) by auto
    have 5: "\<not> isdigit J"
    proof (cases "rest = []")
      case True
      then show ?thesis using xk(4) by (simp add: J_def Cons)
    next
      case False
      then have "CHR '' '' \<in> set J" unfolding J_def Cons by (rule join_blank)
      moreover have "\<not> is_digit CHR '' ''" by (simp add: is_digit_def is_decimal_def)
      ultimately have "\<not> list_all is_digit J" unfolding list_all_iff by blast
      then show ?thesis by (simp add: isdigit_def)
    qed
    have 6: "CHR ''<'' \<notin> set J"
    proof
      assume "CHR ''<'' \<in> set J"
      then have "CHR ''<'' \<in> (\<Union>l \<in> set ls. set l)" using set_join[of ls] unfolding J_def by auto
      then obtain l where l: "l \<in> set ls" "CHR ''<'' \<in> set l" by blast
      then obtain y where y: "y \<in> set (split_on newline v)" "l = strip y" using kept by blast
      then have "CHR ''<'' \<in> set y" using l(2) set_strip[of y] by blast
      then show False using src y(1) by blast
    qed
    show ?thesis using Jc 1 2 3 4 5 6 by (intro parse_vtt_to_text_clean) simp_all
  qed
  then show ?thesis by (simp only: J)
qed

lemma parse_vtt_markup_line: "parse_vtt_to_text markup_line = '' hello''"
  unfolding markup_line_def by code_simp

text \<open>The claim as stated fails for \<open>parse_vtt_to_text\<close>: tags are removed after the line
  was stripped and tested, so the text of \<open>markup_line\<close> keeps a leading blank, which a
  second pass strips.\<close>

theorem normalizers_idempotent_counterexample:
  "parse_vtt_to_text (parse_vtt_to_text markup_line) \<noteq> parse_vtt_to_text markup_line"
  unfolding markup_line_def by code_simp

text \<open>
  Claim C9, amended. \<open>srt_to_text\<close> is idempotent on every input, and \<open>parse_vtt_to_text\<close>
  is idempotent on every input without the character \<open><\<close>, that is without inline markup.
\<close>

theorem normalizers_idempotent_amended:
  "srt_to_text (srt_to_text s) = srt_to_text s \<and>
   (CHR ''<'' \<notin> set v \<longrightarrow> parse_vtt_to_text (parse_vtt_to_text v) = parse_vtt_to_text v)"
  using srt_to_text_idem parse_vtt_to_text_idem by blast

text \<open>The witness: a cue track with a repeated line and no markup.\<close>

lemma cue_track_no_markup: "CHR ''<'' \<notin> set cue_track"
  unfolding cue_track_def by code_simp

lemma cue_track_text: "parse_vtt_to_text cue_track = ''hello world again''"
  unfolding cue_track_def by code_simp

theorem normalizers_idempotent_amended_witness:
  "CHR ''<'' \<notin> set cue_track \<and> parse_vtt_to_text cue_track = ''hello world again'' \<and>
   parse_vtt_to_text ''hello world again'' = ''hello world again''"
  using normalizers_idempotent_amended[of cue_track cue_track] cue_track_no_markup cue_track_text
  by simp

subsection \<open>Saving the ledger\<close>

text \<open>
  Claim C3, amended. A save writes the full current state, and a completed save leaves
  exactly that state in the progress file. It is not atomic: both scripts open the
  progress file itself for writing, which empties it, and then write the state into it.
  There is no temporary file and no rename; between the two steps the file is empty, and
  \<open>load_progress\<close> fails on it.
\<close>

theorem save_progress_two_steps:
  "save_progress p = [OpenW PROGRESS_FILE, Write PROGRESS_FILE (Ledger p)] \<and>
   load_progress (run_ops (save_progress p) fs) = Some p \<and>
   run_ops (take 1 (save_progress p)) fs PROGRESS_FILE = Some Empty \<and>
   load_progress (run_ops (take 1 (save_progress p)) fs) = None \<and>
   save_caption_progress c = [OpenW CAPTION_PROGRESS_FILE, Write CAPTION_PROGRESS_FILE c] \<and>
   run_ops (save_caption_progress c) cfs CAPTION_PROGRESS_FILE = Some (Holds c) \<and>
   run_ops (take 1 (save_caption_progress c)) cfs CAPTION_PROGRESS_FILE = Some Empty"
  by (simp add: save_progress_def save_caption_progress_def write_text_def load_progress_def)

text \<open>The claim as stated fails: a process that dies after the first step of a save leaves
  neither the old ledger nor the new one.\<close>

theorem save_progress_atomic_counterexample:
  "old_files PROGRESS_FILE = Some (Holds (Ledger old_ledger)) \<and>
   run_ops (take 1 (save_progress new_ledger)) old_files PROGRESS_FILE = Some Empty \<and>
   load_progress (run_ops (take 1 (save_progress new_ledger)) old_files) = None"
  by (simp add: save_progress_def write_text_def load_progress_def old_files_def)

subsection \<open>The transcription ledger\<close>

lemma poll_all_waiting:
  "list_all is_waiting ps \<Longrightarrow>
   poll_transcription tid ps = (Inl ''Transcription timed out after 600s'', replicate (length ps) (Poll tid))"
proof (induction ps)
  case Nil
  then show ?case by simp
next
  case (Cons a ps)
  then show ?case by (cases a) simp_all
qed



lemma file_ops_append: "file_ops (xs @ ys) = file_ops xs @ file_ops ys"
  by (induction xs rule: file_ops.induct) simp_all

lemma file_ops_FileOp: "file_ops (map FileOp ops) = ops"
  by (induction ops) simp_all

lemma file_ops_polls: "file_ops (snd (poll_transcription tid ps)) = []"
proof (induction ps)
  case Nil
  then show ?case by simp
next
  case (Cons x ps)
  then show ?case by (cases x) (auto split: prod.splits)
qed

lemma run_ops_append: "run_ops (xs @ ys) fs = run_ops ys (run_ops xs fs)"
  by (induction xs arbitrary: fs) simp_all



lemma load_after_save: "load_progress (run_ops (save_progress p) fs) = Some p"
  by (simp add: save_progress_def write_text_def load_progress_def)


lemma dict_get_pop: "distinct (map fst d) \<Longrightarrow> dict_get (dict_pop k d) k = None"
proof (induction d)
  case Nil
  then show ?case by simp
next
  case (Cons a d)
  have "k \<notin> fst ` set d \<Longrightarrow> dict_get d k = None" for d :: "(string \<times> 'a) list"
    by (induction d) auto
  then show ?case using Cons by (cases a) auto
qed

lemma keys_dict_set: "set (map fst (dict_set k v d)) = insert k (set (map fst d))"
proof (induction d)
  case Nil
  then show ?case by simp
next
  case (Cons a d)
  obtain k' v' where a: "a = (k', v')" by (cases a)
  show ?case using Cons a by (cases "k' = k") (simp_all add: insert_commute)
qed

lemma distinct_dict_set: "distinct (map fst d) \<Longrightarrow> distinct (map fst (dict_set k v d))"
proof (induction d)
  case Nil
  then show ?case by simp
next
  case (Cons a d)
  obtain k' v' where a: "a = (k', v')" by (cases a)
  show ?case
  proof (cases "k' = k")
    case True
    then show ?thesis using Cons.prems a by simp
  next
    case False
    have "k' \<notin> set (map fst (dict_set k v d))"
      using Cons.prems a False unfolding keys_dict_set by simp
    then show ?thesis using Cons a False by simp
  qed
qed

lemma load_after_acts_save:
  "load_progress (files_after (acts @ map FileOp (save_progress p)) fs) = Some p"
  by (simp add: files_after_def file_ops_append file_ops_FileOp run_ops_append load_after_save)

lemma record_failure_eq:
  "record_failure ep e p acts =
     (False, p\<lparr>failed := failed p @ [(ep, e)], pending := dict_pop ep (pending p)\<rparr>,
      acts @ map FileOp (save_progress (p\<lparr>failed := failed p @ [(ep, e)],
                                            pending := dict_pop ep (pending p)\<rparr>)))"
  by (simp add: record_failure_def Let_def)

lemma poll_and_store_timeout:
  assumes "list_all is_waiting (polls env)" "distinct (map fst (pending p))"
  shows "fst (poll_and_store env ep yt tid p acts) = False \<and>
     failed (fst (snd (poll_and_store env ep yt tid p acts))) =
        failed p @ [(ep, ''Transcription timed out after 600s'')] \<and>
     dict_get (pending (fst (snd (poll_and_store env ep yt tid p acts)))) ep = None \<and>
     load_progress (files_after (snd (snd (poll_and_store env ep yt tid p acts))) fs) =
        Some (fst (snd (poll_and_store env ep yt tid p acts)))"
proof -
  have "poll_and_store env ep yt tid p acts =
      record_failure ep ''Transcription timed out after 600s'' p
        (acts @ replicate (length (polls env)) (Poll tid))"
    by (simp add: poll_and_store_def poll_all_waiting[OF assms(1)])
  then show ?thesis
    unfolding record_failure_eq
    using assms(2)
    by (simp add: files_after_def file_ops_append file_ops_FileOp run_ops_append load_after_save
        dict_get_pop)
qed

text \<open>
  Claim C4, amended. When every poll made within the time limit finds the job unfinished,
  \<open>transcribe_episode\<close> returns false, appends the episode with the timeout message to
  \<open>failed\<close>, removes its entry from \<open>pending\<close> (the transcript id is dropped) and saves that
  ledger. When yt-dlp runs into its time limit, \<open>download_captions\<close> returns \<open>timeout\<close> and the
  loop of \<open>main\<close> appends the video to \<open>failed\<close>. In neither script does the item stay
  pending.
\<close>

theorem timeout_recorded_as_failed:
  "(fs (output_file ep yt) = None \<and> ep \<notin> set (completed p) \<and> distinct (map fst (pending p)) \<and>
    list_all is_waiting (polls env) \<and>
    (dict_get (pending p) ep \<noteq> None \<or> (\<exists>url tid. audio_url env = Inr url \<and> submitted env = Inr tid))
    \<longrightarrow> fst (transcribe_episode env fs ep yt p) = False \<and>
        failed (fst (snd (transcribe_episode env fs ep yt p))) =
          failed p @ [(ep, ''Transcription timed out after 600s'')] \<and>
        dict_get (pending (fst (snd (transcribe_episode env fs ep yt p)))) ep = None \<and>
        load_progress (files_after (snd (snd (transcribe_episode env fs ep yt p))) fs) =
          Some (fst (snd (transcribe_episode env fs ep yt p)))) \<and>
   (''transcripts/youtube/ep'' @ ep_num @ ''_'' @ yt_id @ ''.en.vtt'' \<notin> set existing
    \<longrightarrow> download_captions existing TimeoutExpired yt_id ep_num = ''timeout'' \<and>
        record_caption_result (download_captions existing TimeoutExpired yt_id ep_num) yt_id c =
          c\<lparr>cap_failed := cap_failed c @ [yt_id]\<rparr>)"
proof (intro conjI impI)
  assume a: "fs (output_file ep yt) = None \<and> ep \<notin> set (completed p) \<and> distinct (map fst (pending p)) \<and>
    list_all is_waiting (polls env) \<and>
    (dict_get (pending p) ep \<noteq> None \<or> (\<exists>url tid. audio_url env = Inr url \<and> submitted env = Inr tid))"
  then have w: "list_all is_waiting (polls env)" and d: "distinct (map fst (pending p))" by simp_all
  have "\<exists>tid p' acts. transcribe_episode env fs ep yt p = poll_and_store env ep yt tid p' acts \<and>
      distinct (map fst (pending p')) \<and> failed p' = failed p"
  proof (cases "dict_get (pending p) ep")
    case (Some tid)
    then have "transcribe_episode env fs ep yt p = poll_and_store env ep yt tid p []"
      using a by (simp add: transcribe_episode_def)
    then show ?thesis using d by blast
  next
    case None
    then obtain url tid where u: "audio_url env = Inr url" "submitted env = Inr tid" using a by auto
    have "transcribe_episode env fs ep yt p =
       poll_and_store env ep yt tid (p\<lparr>pending := dict_set ep tid (pending p)\<rparr>)
         ([GetAudioUrl yt, Submit (strip url)] @
          map FileOp (save_progress (p\<lparr>pending := dict_set ep tid (pending p)\<rparr>)))"
      using a None u
      by (simp add: transcribe_episode_def get_youtube_audio_url_def submit_transcription_def Let_def)
    moreover have "distinct (map fst (pending (p\<lparr>pending := dict_set ep tid (pending p)\<rparr>)))"
      using d by (simp add: distinct_dict_set)
    ultimately show ?thesis by force
  qed
  then obtain tid p' acts where
    t: "transcribe_episode env fs ep yt p = poll_and_store env ep yt tid p' acts"
    and d': "distinct (map fst (pending p'))" and f: "failed p' = failed p" by blast
  note r = poll_and_store_timeout[OF w d', of ep yt tid acts fs]
  show "fst (transcribe_episode env fs ep yt p) = False" using r t by simp
  show "failed (fst (snd (transcribe_episode env fs ep yt p))) =
          failed p @ [(ep, ''Transcription timed out after 600s'')]" using r t f by simp
  show "dict_get (pending (fst (snd (transcribe_episode env fs ep yt p)))) ep = None" using r t by simp
  show "load_progress (files_after (snd (snd (transcribe_episode env fs ep yt p))) fs) =
          Some (fst (snd (transcribe_episode env fs ep yt p)))" using r t by simp
next
  assume "''transcripts/youtube/ep'' @ ep_num @ ''_'' @ yt_id @ ''.en.vtt'' \<notin> set existing"
  then show "download_captions existing TimeoutExpired yt_id ep_num = ''timeout''"
    by (simp add: download_captions_def Let_def)
  then show "record_caption_result (download_captions existing TimeoutExpired yt_id ep_num) yt_id c =
          c\<lparr>cap_failed := cap_failed c @ [yt_id]\<rparr>"
    by (simp add: record_caption_result_def)
qed

lemma old_files_output: "old_files (output_file ''1171'' ''vid'') = None"
  by (simp add: old_files_def output_file_def PROGRESS_FILE_def)

lemma slow_service_waiting: "list_all is_waiting (polls slow_service)"
  by (simp add: slow_service_def list_all_iff)

theorem timeout_recorded_as_failed_witness:
  "dict_get (pending new_ledger) ''1171'' = Some ''job-1'' \<and>
   fst (transcribe_episode slow_service old_files ''1171'' ''vid'' new_ledger) = False \<and>
   failed (fst (snd (transcribe_episode slow_service old_files ''1171'' ''vid'' new_ledger))) =
     failed new_ledger @ [(''1171'', ''Transcription timed out after 600s'')] \<and>
   dict_get (pending (fst (snd (transcribe_episode slow_service old_files ''1171'' ''vid'' new_ledger))))
     ''1171'' = None \<and>
   download_captions [] TimeoutExpired ''vid'' ''1171'' = ''timeout'' \<and>
   record_caption_result (download_captions [] TimeoutExpired ''vid'' ''1171'') ''vid''
     no_progress = no_progress\<lparr>cap_failed := cap_failed no_progress @ [''vid'']\<rparr>"
proof -
  have h1: "old_files (output_file ''1171'' ''vid'') = None \<and> ''1171'' \<notin> set (completed new_ledger) \<and>
    distinct (map fst (pending new_ledger)) \<and> list_all is_waiting (polls slow_service) \<and>
    (dict_get (pending new_ledger) ''1171'' \<noteq> None \<or>
     (\<exists>url tid. audio_url slow_service = Inr url \<and> submitted slow_service = Inr tid))"
    by (simp add: old_files_output new_ledger_def slow_service_waiting)
  have h2: "''transcripts/youtube/ep'' @ ''1171'' @ ''_'' @ ''vid'' @ ''.en.vtt'' \<notin> set []" by simp
  have h3: "dict_get (pending new_ledger) ''1171'' = Some ''job-1''" by (simp add: new_ledger_def)
  from timeout_recorded_as_failed[of old_files "''1171''" "''vid''" new_ledger slow_service
      "''1171''" "''vid''" "[]" no_progress]
    h1 h2 h3 show ?thesis by blast
qed

text \<open>The claim as stated fails: the pending entry of episode 1171 is gone after the
  timeout, and the episode is in \<open>failed\<close>.\<close>

theorem timeout_stays_pending_counterexample:
  "dict_get (pending new_ledger) ''1171'' = Some ''job-1'' \<and>
   dict_get (pending (fst (snd (transcribe_episode slow_service old_files ''1171'' ''vid'' new_ledger))))
     ''1171'' = None \<and>
   failed (fst (snd (transcribe_episode slow_service old_files ''1171'' ''vid'' new_ledger))) =
     [(''1171'', ''Transcription timed out after 600s'')]"
proof -
  have "poll_transcription ''job-1'' (polls slow_service) =
      (Inl ''Transcription timed out after 600s'', replicate (length (polls slow_service)) (Poll ''job-1''))"
    using slow_service_waiting by (rule poll_all_waiting)
  then show ?thesis
    by (simp add: transcribe_episode_def old_files_output new_ledger_def poll_and_store_def
        record_failure_def Let_def)
qed

subsection \<open>Submission and resumption\<close>








subsection \<open>Transcripts that are too short\<close>

text \<open>
  Claim C7, amended. For a transcript of fewer than 100 characters neither script sends a
  request: the item leaves the world as it is. \<open>sync_youtube_transcripts_to_notion.py\<close>
  appends the episode to \<open>skipped\<close> and to no other list. \<open>sync_transcripts_to_notion.py\<close> has
  two counters only and adds the item to the failed ones, as it does for a transcript file
  that is missing.
\<close>

theorem too_short_not_published:
  "(ep_num \<noteq> [] \<and> isdigit ep_num \<and> vtt_text vtt = Some vtt_content \<and>
    length (parse_vtt_to_text vtt_content) < 100
    \<longrightarrow> yt_item i (ep_num, vtt) st =
          Inr (st\<lparr>ledger := (ledger st)\<lparr>skipped := skipped (ledger st) @ [ep_num]\<rparr>\<rparr>)) \<and>
   (text_path m = Some path \<and> path \<noteq> [] \<and> texts path = Some file_text \<and>
    length (strip file_text) < 100
    \<longrightarrow> map_item texts (num, m) mst = (None, mst\<lparr>failed_count := failed_count mst + 1\<rparr>)) \<and>
   (text_path m = Some path \<and> texts path = None
    \<longrightarrow> map_item texts (num, m) mst = (None, mst\<lparr>failed_count := failed_count mst + 1\<rparr>))"
  by (simp add: yt_item_def note_skipped_def map_item_def count_failed_def Let_def)

lemma short_text_length: "length (parse_vtt_to_text short_text) = 11" "length (strip short_text) = 11"
  unfolding short_text_def by code_simp+

lemma isdigit_1173: "isdigit ''1173''"
  by code_simp

theorem too_short_not_published_witness:
  "yt_item 0 (''1173'', short_vtt) \<lparr>ledger = empty_ledger, yt_world = calm_world, yt_ops = []\<rparr> =
     Inr \<lparr>ledger = \<lparr>synced = [], sync_failed = [], skipped = [''1173'']\<rparr>,
          yt_world = calm_world, yt_ops = []\<rparr> \<and>
   map_item texts_on_disk (''1173'', short_entry) fresh_state =
     (None, \<lparr>synced_count = 0, failed_count = 1, map_world = calm_world\<rparr>) \<and>
   map_item texts_on_disk (''1173'', missing_entry) fresh_state =
     (None, \<lparr>synced_count = 0, failed_count = 1, map_world = calm_world\<rparr>)"
proof (intro conjI)
  show "yt_item 0 (''1173'', short_vtt) \<lparr>ledger = empty_ledger, yt_world = calm_world, yt_ops = []\<rparr> =
     Inr \<lparr>ledger = \<lparr>synced = [], sync_failed = [], skipped = [''1173'']\<rparr>,
          yt_world = calm_world, yt_ops = []\<rparr>"
    using too_short_not_published[THEN conjunct1, of "''1173''" short_vtt short_text 0
        "\<lparr>ledger = empty_ledger, yt_world = calm_world, yt_ops = []\<rparr>"]
    by (simp add: isdigit_1173 short_text_length short_vtt_def empty_ledger_def)
  show "map_item texts_on_disk (''1173'', short_entry) fresh_state =
     (None, \<lparr>synced_count = 0, failed_count = 1, map_world = calm_world\<rparr>)"
    using too_short_not_published[THEN conjunct2, THEN conjunct1, of short_entry
        "''transcripts/short.txt''" texts_on_disk short_text "''1173''" fresh_state]
    by (simp add: short_text_length short_entry_def texts_on_disk_def fresh_state_def)
  show "map_item texts_on_disk (''1173'', missing_entry) fresh_state =
     (None, \<lparr>synced_count = 0, failed_count = 1, map_world = calm_world\<rparr>)"
    using too_short_not_published[THEN conjunct2, THEN conjunct2, of missing_entry
        "''transcripts/none.txt''" texts_on_disk "''1173''" fresh_state]
    by (simp add: missing_entry_def texts_on_disk_def fresh_state_def)
qed

text \<open>The claim as stated fails in \<open>sync_transcripts_to_notion.py\<close>: a transcript that is too
  short and a transcript file that is missing leave the same record.\<close>

theorem too_short_category_counterexample:
  "length (strip short_text) < 100 \<and>
   texts_on_disk ''transcripts/none.txt'' = None \<and>
   map_item texts_on_disk (''1173'', short_entry) fresh_state =
     map_item texts_on_disk (''1173'', missing_entry) fresh_state"
  by (simp add: short_text_length map_item_def short_entry_def missing_entry_def
      texts_on_disk_def Let_def)

subsection \<open>A failure of one item\<close>

text \<open>
  Claim C8. \<open>notion_request\<close> of \<open>sync_transcripts_to_notion.py\<close> catches \<open>HTTPError\<close> only and
  \<open>main\<close> catches nothing: a network error on the query for episode 1172, the first item,
  leaves \<open>main\<close>. Nothing is counted, and episode 1171 is never processed.
\<close>

theorem main_map_aborts_on_network_error:
  "main_map [entry_1171, entry_1172] texts_on_disk stormy_world =
     (Some (NetworkError URLError),
      \<lparr>synced_count = 0, failed_count = 0,
        map_world = \<lparr>pages = two_pages, faults = [], sent = [Query 1172]\<rparr>\<rparr>)"
  by code_simp

text \<open>\<open>notion_request\<close> of \<open>sync_youtube_transcripts_to_notion.py\<close> catches every exception: no
  fault of the transport leaves its \<open>main\<close>. The one exception that can leave it is the
  \<open>ValueError\<close> of \<open>int\<close> in \<open>find_episode_page\<close>, on an episode number that \<open>isdigit\<close> accepts
  and \<open>int\<close> does not read.\<close>

lemma find_episode_page_yt_error:
  "find_episode_page_yt ep_num w = (Inl e, w1) \<Longrightarrow> e = ValueError"
  by (auto simp: find_episode_page_yt_def split: option.splits prod.splits list.splits)

lemma yt_publish_error: "yt_publish i ep_num transcript st = Inl e \<Longrightarrow> e = ValueError"
  unfolding yt_publish_def
  by (auto simp: find_episode_page_yt_error split: prod.splits sum.splits option.splits bool.splits if_splits)

lemma yt_item_error: "yt_item i item st = Inl e \<Longrightarrow> e = ValueError"
  unfolding yt_item_def
  by (auto simp: Let_def yt_publish_error split: prod.splits option.splits if_splits)

lemma yt_loop_error: "yt_loop i items st = Inl e \<Longrightarrow> e = ValueError"
proof (induction items arbitrary: i st)
  case Nil
  then show ?case by simp
next
  case (Cons item items)
  show ?case
  proof (cases "yt_item i item st")
    case (Inl e')
    then have "e' = ValueError" by (rule yt_item_error)
    then show ?thesis using Cons.prems Inl by simp
  next
    case (Inr st1)
    then have "yt_loop (i + 1) items st1 = Inl e" using Cons.prems by simp
    then show ?thesis by (rule Cons.IH)
  qed
qed

lemma main_yt_error: "main_yt vtt_files synced_data w = Inl e \<Longrightarrow> e = ValueError"
  unfolding main_yt_def
  by (auto simp: yt_loop_error split: sum.splits)

lemma main_yt_superscript:
  "isdigit [CHR 0xB2] \<and> py_int [CHR 0xB2] = None \<and>
   main_yt [\<lparr>stem = ''ep'' @ [CHR 0xB2] @ ''_vid.en'', vtt_text = Some alex_text\<rparr>, vtt_1171]
     empty_ledger calm_world = Inl ValueError"
  by code_simp

text \<open>An episode number of decimal digits is read by \<open>int\<close>.\<close>

lemma is_decimal_plain: "is_decimal c \<Longrightarrow> \<not> is_int_space c \<and> c \<noteq> CHR ''-'' \<and> c \<noteq> CHR ''+''"
  by (auto simp: is_decimal_def is_int_space_def)

lemma valid_digits_all: "list_all is_decimal s \<Longrightarrow> valid_digits True s"
  by (induction s) simp_all

lemma py_int_decimal:
  assumes "s \<noteq> []" "list_all is_decimal s"
  shows "py_int s \<noteq> None"
proof -
  from assms obtain c cs where s: "s = c # cs" and d: "list_all is_decimal (c # cs)"
    by (cases s) auto
  have c: "\<not> is_int_space c" "c \<noteq> CHR ''-''" "c \<noteq> CHR ''+''" using d is_decimal_plain by auto
  have l: "\<not> is_int_space (last (c # cs))"
    using d is_decimal_plain[of "last (c # cs)"] by (metis last_in_set list.discI list_all_iff)
  have 1: "dropWhile is_int_space (c # cs) = c # cs" using c by simp
  have "hd (rev (c # cs)) = last (c # cs)" by (rule hd_rev)
  then have "rev (c # cs) \<noteq> []" "\<not> is_int_space (hd (rev (c # cs)))" using l by simp_all
  then have 2: "dropWhile is_int_space (rev (c # cs)) = rev (c # cs)"
    by (cases "rev (c # cs)") auto
  have t: "rev (dropWhile is_int_space (rev (dropWhile is_int_space s))) = c # cs"
    unfolding s 1 2 by simp
  have "valid_digits False (c # cs)" using d by (simp add: valid_digits_all)
  then show ?thesis unfolding py_int_def t using c by (simp add: Let_def)
qed

subsection \<open>A second run\<close>

text \<open>\<open>sync_transcripts_to_notion.py\<close> keeps no ledger and makes no check of the page: a second
  run appends the transcript section again.\<close>

lemma main_map_appends_twice:
  "pages calm_world = two_pages \<and>
   pages after_first_run =
     [\<lparr>page_id = ''page-1171'', episode_no = 1171,
        children = transcript_blocks_map (strip alex_text)\<rparr>,
      \<lparr>page_id = ''page-1172'', episode_no = 1172, children = []\<rparr>] \<and>
   pages (map_world (snd (main_map [entry_1171] texts_on_disk after_first_run))) =
     [\<lparr>page_id = ''page-1171'', episode_no = 1171,
        children = transcript_blocks_map (strip alex_text) @ transcript_blocks_map (strip alex_text)\<rparr>,
      \<lparr>page_id = ''page-1172'', episode_no = 1172, children = []\<rparr>] \<and>
   length (filter is_transcript_heading
     (transcript_blocks_map (strip alex_text) @ transcript_blocks_map (strip alex_text))) = 2"
  by code_simp



lemma ledger_yt_world_update: "ledger (st\<lparr>yt_world := w\<rparr>) = ledger st"
  by simp




















end
